theory Spec2Isabelle
  imports Complex_Main "HOL-Library.Log_Nat" "HOL-Library.Word"
begin

unbundle bit_operations_syntax

section \<open>Binary floating point\<close>

text \<open>
  The C++ types \<^verbatim>\<open>float\<close> and \<^verbatim>\<open>double\<close> are IEEE 754 binary32 and binary64.
  A finite floating-point number is the real number it denotes; every arithmetic
  operation and every conversion of the source is the exact real operation followed by
  rounding to nearest, ties to even, at 24 or 53 significant bits. The exponent range is
  not bounded here: the quantities of this program (differences of 64-bit nanosecond
  timestamps, sample rates, frame counts) stay far inside the normal range of both
  formats, so neither overflow to infinity nor gradual underflow occurs.
\<close>

definition pow2 :: "int \<Rightarrow> real" where
  "pow2 k = (if 0 \<le> k then 2 ^ nat k else 1 / 2 ^ nat (- k))"

text \<open>Round to the nearest integer, ties to the even one.\<close>

definition rne :: "real \<Rightarrow> int" where
  "rne x = (let f = \<lfloor>x\<rfloor>; r = x - of_int f in
     if r < 1 / 2 then f else if 1 / 2 < r then f + 1 else if even f then f else f + 1)"

text \<open>The binary exponent of a positive real: \<open>2 ^ ilog2 x \<le> x < 2 ^ (ilog2 x + 1)\<close>.\<close>

definition ilog2 :: "real \<Rightarrow> int" where
  "ilog2 x = (if 1 \<le> x then int (floorlog 2 (nat \<lfloor>x\<rfloor>)) - 1
              else - int (floorlog 2 (nat (\<lceil>1 / x\<rceil> - 1))))"

text \<open>Rounding to \<open>p\<close> significant bits.\<close>

definition round_to :: "nat \<Rightarrow> real \<Rightarrow> real" where
  "round_to p x = (if x = 0 then 0 else
     let u = pow2 (ilog2 \<bar>x\<bar> - int p + 1) in of_int (rne (x / u)) * u)"

definition toFloat :: "real \<Rightarrow> real" where
  "toFloat = round_to 24"

definition toDouble :: "real \<Rightarrow> real" where
  "toDouble = round_to 53"

text \<open>\<^verbatim>\<open>std::round\<close>: to the nearest integer, halfway cases away from zero.\<close>

definition std_round :: "real \<Rightarrow> int" where
  "std_round x = (if 0 \<le> x then \<lfloor>x + 1 / 2\<rfloor> else - \<lfloor>- x + 1 / 2\<rfloor>)"

text \<open>Conversion of a floating-point value to an integer type truncates towards zero.\<close>

definition float_to_int :: "real \<Rightarrow> int" where
  "float_to_int x = (if 0 \<le> x then \<lfloor>x\<rfloor> else \<lceil>x\<rceil>)"

text \<open>
  \<^verbatim>\<open>static_cast<int>\<close> of a floating-point value. A value beyond the range of \<^verbatim>\<open>int\<close> has no
  defined result in C++; the conversion instruction of x86-64 then delivers the most
  negative \<^verbatim>\<open>int\<close>, and that is the value taken here.
\<close>

definition float_to_int32 :: "real \<Rightarrow> int" where
  "float_to_int32 x =
     (let v = float_to_int x in
      if - 2147483648 \<le> v \<and> v \<le> 2147483647 then v else - 2147483648)"

text \<open>Integer division of C++ truncates towards zero.\<close>

definition tdiv :: "int \<Rightarrow> int \<Rightarrow> int" where
  "tdiv a b = sgn a * sgn b * (\<bar>a\<bar> div \<bar>b\<bar>)"

text \<open>
  Narrowing of a 64-bit integer to \<^verbatim>\<open>int\<close> keeps the low 32 bits. The same function gives
  the result of an \<^verbatim>\<open>int\<close> addition, subtraction or multiplication: the exact result when
  it fits, and its low 32 bits when it overflows (undefined in C++, and what the compiled
  two's-complement arithmetic delivers).
\<close>

definition narrow_int :: "int \<Rightarrow> int" where
  "narrow_int v = sint (word_of_int v :: 32 word)"

section \<open>VirtualFileSystemImpl\_MCRAW.cpp\<close>

text \<open>
  Exceptions: the handler of \<^verbatim>\<open>generateFrame\<close> tells a \<^verbatim>\<open>std::runtime_error\<close> from every
  other exception, and so does the model.
\<close>

datatype exn = RuntimeError string | OtherException string

text \<open>
  \<^verbatim>\<open>Timestamp\<close> is a signed 64-bit count of nanoseconds. Signed overflow is undefined in
  C++, so timestamps are mathematical integers and the model describes the executions
  whose timestamp arithmetic stays in range.
\<close>

type_synonym Timestamp = int

type_synonym AudioChunk = "Timestamp \<times> 16 word list"

subsection \<open>calculateFrameRate\<close>

text \<open>
  The loop over \<open>i = 1 ..< frames.size()\<close>, as a recursion over the adjacent pairs of the
  list, carrying \<open>avgDuration\<close> and \<open>validFrames\<close>. The divisor \<open>validFrames + 1\<close> is a
  32-bit integer, which converts to \<^verbatim>\<open>double\<close> exactly.
\<close>

fun frameRateLoop :: "Timestamp list \<Rightarrow> real \<Rightarrow> nat \<Rightarrow> real \<times> nat" where
  "frameRateLoop (a # b # rest) avgDuration validFrames =
     (let duration = toDouble (of_int (b - a)) in
      if duration > 0
      then frameRateLoop (b # rest)
             (toDouble (avgDuration + toDouble (toDouble (duration - avgDuration) / real (validFrames + 1))))
             (validFrames + 1)
      else frameRateLoop (b # rest) avgDuration validFrames)"
| "frameRateLoop [a] avgDuration validFrames = (avgDuration, validFrames)"
| "frameRateLoop [] avgDuration validFrames = (avgDuration, validFrames)"

definition calculateFrameRate :: "Timestamp list \<Rightarrow> real" where
  "calculateFrameRate frames =
     (if length frames < 2 then 0
      else case frameRateLoop frames 0 0 of (avgDuration, validFrames) \<Rightarrow>
        if validFrames = 0 then 0
        else toFloat (toDouble (1000000000 / avgDuration)))"




subsection \<open>getFrameNumberFromTimestamp and constructFrameFilename\<close>

definition getFrameNumberFromTimestamp :: "Timestamp \<Rightarrow> Timestamp \<Rightarrow> real \<Rightarrow> int" where
  "getFrameNumberFromTimestamp timestamp referenceTimestamp frameRate =
     (if frameRate \<le> 0 then - 1
      else let timeDifference = timestamp - referenceTimestamp in
        if timeDifference < 0 then - 1
        else let nanosecondsPerFrame = toDouble (1000000000 / frameRate) in
          std_round (toDouble (toDouble (of_int timeDifference) / nanosecondsPerFrame)))"

fun decimal :: "nat \<Rightarrow> string" where
  "decimal n = (if n < 10 then [''0123456789'' ! n]
                else decimal (n div 10) @ [''0123456789'' ! (n mod 10)])"

declare decimal.simps [simp del]

text \<open>\<^verbatim>\<open>operator<<\<close> on an \<^verbatim>\<open>int\<close> in the classic locale.\<close>

definition show_int :: "int \<Rightarrow> string" where
  "show_int i = (if i < 0 then CHR ''-'' # decimal (nat (- i)) else decimal (nat i))"

text \<open>\<^verbatim>\<open>std::setfill('0') << std::setw(padding)\<close>: fill on the left up to the width.\<close>

definition setw_fill :: "nat \<Rightarrow> char \<Rightarrow> string \<Rightarrow> string" where
  "setw_fill w c s = replicate (w - length s) c @ s"

definition constructFrameFilename :: "string \<Rightarrow> int \<Rightarrow> nat \<Rightarrow> string \<Rightarrow> string" where
  "constructFrameFilename baseName frameNumber padding extension =
     baseName @ setw_fill padding CHR ''0'' (show_int frameNumber) @
     (if extension = [] then []
      else (if hd extension \<noteq> CHR ''.'' then ''.'' else []) @ extension)"

text \<open>
  Reading a file name back: the value of a decimal numeral, and the frame number in a name
  \<open>frame-\<dots>.dng\<close> (the characters between the prefix of 6 and the suffix of 4).
\<close>

definition digitValue :: "char \<Rightarrow> nat" where
  "digitValue c = length (takeWhile (\<lambda>d. d \<noteq> c) ''0123456789'')"

definition readDecimal :: "string \<Rightarrow> nat" where
  "readDecimal s = foldl (\<lambda>acc c. 10 * acc + digitValue c) 0 s"

definition frameNumberOf :: "string \<Rightarrow> nat" where
  "frameNumberOf name = readDecimal (take (length name - 10) (drop 6 name))"

subsection \<open>syncAudio\<close>

text \<open>
  Line 121: the 64-bit difference is converted to \<^verbatim>\<open>float\<close> and multiplied by the
  \<^verbatim>\<open>float\<close> literal \<^verbatim>\<open>1e-6f\<close>.
\<close>

definition audioVideoDriftMs :: "Timestamp \<Rightarrow> Timestamp \<Rightarrow> real" where
  "audioVideoDriftMs audioTimestamp videoTimestamp =
     toFloat (toFloat (of_int (audioTimestamp - videoTimestamp)) * toFloat (1 / 1000000))"

text \<open>
  Lines 125 and 154: \<^verbatim>\<open>static_cast<int>(std::round(ms * sampleRate / 1000))\<close>, evaluated
  in \<^verbatim>\<open>float\<close> and converted to a 32-bit \<^verbatim>\<open>int\<close>.
\<close>

definition audioFrames :: "real \<Rightarrow> int \<Rightarrow> int" where
  "audioFrames ms sampleRate =
     float_to_int32 (of_int (std_round (toFloat (toFloat (ms * toFloat (of_int sampleRate)) / 1000))))"


text \<open>
  Line 145 divides two \<^verbatim>\<open>int\<close> values. A division by zero, and the division of the most
  negative \<^verbatim>\<open>int\<close> by \<open>- 1\<close>, are undefined and trap on x86-64; the model reports a fault.
\<close>

definition idiv :: "int \<Rightarrow> int \<Rightarrow> exn + int" where
  "idiv a b = (if b = 0 \<or> (a = - 2147483648 \<and> b = - 1)
               then Inl (OtherException ''integer division fault'')
               else Inr (tdiv a b))"

text \<open>
  The \<^verbatim>\<open>while\<close> loop of the trimming branch. The iterator starts at the first chunk
  and every \<^verbatim>\<open>erase\<close> returns the new first chunk, so the loop always works on the head of
  the vector. \<open>samplesToRemove\<close>, \<open>samplesRemoved\<close> and \<open>remainingSamplesToRemove\<close> are
  32-bit \<^verbatim>\<open>int\<close> variables. The comparison of line 135 converts the \<^verbatim>\<open>int\<close> to the unsigned
  64-bit type of \<^verbatim>\<open>size()\<close>; the sum of line 137 is formed in that type and narrowed back; the
  product and the quotient of line 145 are \<^verbatim>\<open>int\<close> operations, widened to the timestamp
  afterwards.
\<close>

fun trimChunks :: "int \<Rightarrow> int \<Rightarrow> int \<Rightarrow> AudioChunk list \<Rightarrow> exn + AudioChunk list" where
  "trimChunks sampleRate samplesToRemove samplesRemoved [] = Inr []"
| "trimChunks sampleRate samplesToRemove samplesRemoved ((first, second) # rest) =
     (if samplesRemoved < samplesToRemove then
        let remainingSamplesToRemove = narrow_int (samplesToRemove - samplesRemoved) in
        if int (length second) \<le> remainingSamplesToRemove mod 2 ^ 64
        then trimChunks sampleRate samplesToRemove (narrow_int (samplesRemoved + int (length second))) rest
        else (case idiv (narrow_int (remainingSamplesToRemove * 1000)) sampleRate of
                Inl e \<Rightarrow> Inl e
              | Inr advance \<Rightarrow>
                  Inr ((first + advance, drop (nat remainingSamplesToRemove) second) # rest))
      else Inr ((first, second) # rest))"

text \<open>
  Line 166, \<^verbatim>\<open>it->first += silenceDuration\<close>, adds a \<^verbatim>\<open>float\<close> to a 64-bit integer: the
  integer is converted to \<^verbatim>\<open>float\<close>, the sum is a \<^verbatim>\<open>float\<close>, and the result is
  truncated back to an integer.
\<close>

definition addFloat :: "Timestamp \<Rightarrow> real \<Rightarrow> Timestamp" where
  "addFloat t d = float_to_int (toFloat (toFloat (of_int t) + d))"

text \<open>
  The products of lines 126 and 155 are \<^verbatim>\<open>int\<close> multiplications. The constructor
  \<^verbatim>\<open>std::vector<int16_t> silenceData(silenceSamples, 0)\<close> takes its size as an unsigned
  value: a negative \<open>silenceSamples\<close> is a size beyond \<^verbatim>\<open>max_size()\<close> and the constructor
  throws. \<^verbatim>\<open>audioChunks[0]\<close> is read without a check; the caller passes a vector that is not
  empty. \<open>sampleRate\<close> and \<open>numChannels\<close> are \<^verbatim>\<open>int\<close> parameters.
\<close>

definition syncAudio :: "Timestamp \<Rightarrow> AudioChunk list \<Rightarrow> int \<Rightarrow> int \<Rightarrow> exn + AudioChunk list" where
  "syncAudio videoTimestamp audioChunks sampleRate numChannels =
     (let driftMs = audioVideoDriftMs (fst (hd audioChunks)) videoTimestamp in
      if driftMs > 0 then
        let audioFramesToRemove = audioFrames driftMs sampleRate;
            samplesToRemove = narrow_int (audioFramesToRemove * numChannels)
        in trimChunks sampleRate samplesToRemove 0 audioChunks
      else
        let silenceDuration = - driftMs;
            silenceFrames = audioFrames silenceDuration sampleRate;
            silenceSamples = narrow_int (silenceFrames * numChannels)
        in if silenceSamples < 0 then Inl (OtherException ''length_error'')
           else
             let silenceChunk = (videoTimestamp, replicate (nat silenceSamples) 0)
             in Inr (silenceChunk #
                     map (\<lambda>(first, second). (addFloat first silenceDuration, second)) audioChunks))"

subsection \<open>Entries and the state of the file system\<close>

datatype EntryType = FILE_ENTRY | DIRECTORY_ENTRY

text \<open>
  \<^verbatim>\<open>Entry\<close> is declared outside this file; its fields are the ones \<^verbatim>\<open>init\<close> assigns.
  \<^verbatim>\<open>userData\<close> is a variant that holds a \<^verbatim>\<open>Timestamp\<close> for an image entry and nothing
  otherwise.
\<close>

record Entry =
  type_Entry :: EntryType
  size_Entry :: nat
  name_Entry :: string
  userData :: "Timestamp option"

type_synonym FileRenderOptions = "32 word"

record VirtualFileSystemImpl_MCRAW =
  mFiles :: "Entry list"
  mAudioFile :: "8 word list"
  mTypicalDngSize :: nat
  mFps :: real
  mDraftScale :: int

text \<open>
  The collaborators that live outside this file: the decoder of the capture (its frame
  list, frame payloads with their metadata text, container metadata, audio), the two
  metadata parsers, the DNG encoder, the audio writer (which appends the encoded audio to
  the buffer it is given), and the value of the flag \<^verbatim>\<open>RENDER_OPT_DRAFT\<close>. Each of them
  is a parameter of the model. A call that throws returns \<open>Inl\<close>.
\<close>

record ('cfg, 'meta) Collaborators =
  getFrames :: "Timestamp list"
  loadFrame :: "Timestamp \<Rightarrow> exn + 8 word list \<times> string"
  getContainerMetadata :: string
  loadAudio :: "AudioChunk list"
  audioSampleRateHz :: int
  numAudioChannels :: int
  parseCameraConfiguration :: "string \<Rightarrow> exn + 'cfg"
  parseCameraFrameMetadata :: "string \<Rightarrow> exn + 'meta"
  generateDng :: "8 word list \<Rightarrow> 'meta \<Rightarrow> 'cfg \<Rightarrow> real \<Rightarrow> nat \<Rightarrow> FileRenderOptions \<Rightarrow> int
                    \<Rightarrow> exn + 8 word list option"
  writeAudio :: "8 word list \<Rightarrow> int \<Rightarrow> int \<Rightarrow> real \<Rightarrow> AudioChunk list \<Rightarrow> exn + 8 word list"
  RENDER_OPT_DRAFT :: FileRenderOptions
  win32 :: bool

definition getScaleFromOptions :: "FileRenderOptions \<Rightarrow> FileRenderOptions \<Rightarrow> int \<Rightarrow> int" where
  "getScaleFromOptions draftFlag options draftScale =
     (if options AND draftFlag \<noteq> 0 then draftScale else 1)"

text \<open>The length of the string literal \<^verbatim>\<open>DESKTOP_INI\<close>.\<close>

definition DESKTOP_INI_size :: nat where
  "DESKTOP_INI_size = 217"

subsection \<open>The frame entries of init (lines 272 to 289)\<close>

definition frameEntry :: "int \<Rightarrow> Timestamp \<Rightarrow> nat \<Rightarrow> Entry" where
  "frameEntry lastPts x typicalDngSize =
     \<lparr>type_Entry = FILE_ENTRY, size_Entry = typicalDngSize,
      name_Entry = constructFrameFilename ''frame-'' lastPts 6 ''dng'',
      userData = Some x\<rparr>"

text \<open>The inner loop \<^verbatim>\<open>while(lastPts < pts)\<close> for one source frame \<open>x\<close>.\<close>

function duplicateFrames :: "int \<Rightarrow> int \<Rightarrow> Timestamp \<Rightarrow> nat \<Rightarrow> Entry list \<Rightarrow> int \<times> Entry list" where
  "duplicateFrames lastPts pts x typicalDngSize files =
     (if lastPts < pts
      then duplicateFrames (lastPts + 1) pts x typicalDngSize
             (files @ [frameEntry lastPts x typicalDngSize])
      else (lastPts, files))"
  by pat_completeness auto
termination
  by (relation "measure (\<lambda>(lastPts, pts, x, typicalDngSize, files). nat (pts - lastPts))") auto

declare duplicateFrames.simps [simp del]

text \<open>
  Line 273: \<^verbatim>\<open>int pts = getFrameNumberFromTimestamp(x, frames[0], mFps)\<close>, a 64-bit result
  stored in an \<^verbatim>\<open>int\<close>; \<open>frames0\<close> is \<^verbatim>\<open>frames[0]\<close>.
\<close>

definition framePts :: "Timestamp \<Rightarrow> real \<Rightarrow> Timestamp \<Rightarrow> int" where
  "framePts frames0 fps x = narrow_int (getFrameNumberFromTimestamp x frames0 fps)"

text \<open>The outer loop \<^verbatim>\<open>for(auto& x : frames)\<close>.\<close>

fun addVideoFrames :: "Timestamp list \<Rightarrow> Timestamp \<Rightarrow> real \<Rightarrow> nat \<Rightarrow> int \<Rightarrow> Entry list \<Rightarrow> int \<times> Entry list" where
  "addVideoFrames [] frames0 fps typicalDngSize lastPts files = (lastPts, files)"
| "addVideoFrames (x # xs) frames0 fps typicalDngSize lastPts files =
     (let pts = framePts frames0 fps x in
      case duplicateFrames lastPts pts x typicalDngSize files of
        (lastPts', files') \<Rightarrow> addVideoFrames xs frames0 fps typicalDngSize lastPts' files')"

text \<open>
  The gap-filling rule in the words of the spec. The cursor ends at the largest \<open>pts\<close> of
  any frame (at 0 if none is positive); the slots \<open>0, 1, \<dots>\<close> below it each get one entry,
  whose \<open>user_data\<close> is the source frame that was current when the cursor passed the slot:
  the first frame of the list whose \<open>pts\<close> exceeds the slot.
\<close>

definition nextPts :: "Timestamp \<Rightarrow> real \<Rightarrow> Timestamp list \<Rightarrow> int" where
  "nextPts frames0 fps frames = foldl max 0 (map (framePts frames0 fps) frames)"

definition gapFillEntries :: "Timestamp list \<Rightarrow> Timestamp \<Rightarrow> real \<Rightarrow> nat \<Rightarrow> Entry list" where
  "gapFillEntries frames frames0 fps typicalDngSize =
     map (\<lambda>k. frameEntry k (the (find (\<lambda>x. k < framePts frames0 fps x) frames)) typicalDngSize)
       [0..nextPts frames0 fps frames - 1]"

subsection \<open>init and updateOptions\<close>

definition desktopIni :: Entry where
  "desktopIni = \<lparr>type_Entry = FILE_ENTRY, size_Entry = DESKTOP_INI_size,
                  name_Entry = ''desktop.ini'', userData = None\<rparr>"

definition audioEntry :: "nat \<Rightarrow> Entry" where
  "audioEntry n = \<lparr>type_Entry = FILE_ENTRY, size_Entry = n, name_Entry = ''audio.wav'', userData = None\<rparr>"

text \<open>
  The probe encoding of the first frame (lines 211 to 225). Dereferencing a null result of
  the encoder is undefined; the model counts it as a fault.
\<close>

definition probeDngSize :: "('cfg, 'meta) Collaborators \<Rightarrow> Timestamp \<Rightarrow> real \<Rightarrow> FileRenderOptions \<Rightarrow> int
    \<Rightarrow> exn + nat" where
  "probeDngSize c frames0 fps options draftScale =
     (case loadFrame c frames0 of
        Inl e \<Rightarrow> Inl e
      | Inr (data, metadata) \<Rightarrow>
          (case parseCameraConfiguration c (getContainerMetadata c) of
             Inl e \<Rightarrow> Inl e
           | Inr cameraConfig \<Rightarrow>
               (case parseCameraFrameMetadata c metadata of
                  Inl e \<Rightarrow> Inl e
                | Inr cameraFrameMetadata \<Rightarrow>
                    (case generateDng c data cameraFrameMetadata cameraConfig fps 0 options
                            (getScaleFromOptions (RENDER_OPT_DRAFT c) options draftScale) of
                       Inl e \<Rightarrow> Inl e
                     | Inr None \<Rightarrow> Inl (OtherException ''null dngData'')
                     | Inr (Some dngData) \<Rightarrow> Inr (length dngData)))))"

text \<open>
  Lines 245 to 261: the audio, synchronised to the first frame and encoded into
  \<open>mAudioFile\<close> when the decoder has any.
\<close>

definition encodeAudio :: "('cfg, 'meta) Collaborators \<Rightarrow> Timestamp list \<Rightarrow> VirtualFileSystemImpl_MCRAW
    \<Rightarrow> exn + 8 word list" where
  "encodeAudio c frames this =
     (let audioChunks = loadAudio c in
      if audioChunks \<noteq> []
      then (case syncAudio (hd frames) audioChunks (audioSampleRateHz c) (numAudioChannels c) of
              Inl e \<Rightarrow> Inl e
            | Inr synced \<Rightarrow>
                writeAudio c (mAudioFile this) (numAudioChannels c) (audioSampleRateHz c) (mFps this) synced)
      else Inr (mAudioFile this))"

text \<open>Lines 227 to 289: the entries, once the typical size is known.\<close>

definition generateEntries :: "('cfg, 'meta) Collaborators \<Rightarrow> Timestamp list \<Rightarrow> VirtualFileSystemImpl_MCRAW
    \<Rightarrow> VirtualFileSystemImpl_MCRAW \<times> exn option" where
  "generateEntries c frames this =
     (let this1 = (if win32 c then this\<lparr>mFiles := mFiles this @ [desktopIni]\<rparr> else this) in
      (case encodeAudio c frames this1 of
         Inl e \<Rightarrow> (this1, Some e)
       | Inr audioFile \<Rightarrow>
           (let this2 = this1\<lparr>mAudioFile := audioFile\<rparr>;
                this3 = (if mAudioFile this2 \<noteq> []
                         then this2\<lparr>mFiles := mFiles this2 @ [audioEntry (length (mAudioFile this2))]\<rparr>
                         else this2)
            in (this3\<lparr>mFiles := snd (addVideoFrames frames (hd frames) (mFps this3)
                                          (mTypicalDngSize this3) 0 (mFiles this3))\<rparr>, None))))"

text \<open>
  \<^verbatim>\<open>init\<close> returns the state it leaves behind and the exception that ended it, if any.
\<close>

definition init :: "('cfg, 'meta) Collaborators \<Rightarrow> FileRenderOptions \<Rightarrow> VirtualFileSystemImpl_MCRAW
    \<Rightarrow> VirtualFileSystemImpl_MCRAW \<times> exn option" where
  "init c options this =
     (let frames = sort (getFrames c) in
      if frames = [] then (this, None)
      else
        (let this1 = this\<lparr>mFiles := [], mFps := calculateFrameRate frames\<rparr> in
         (case probeDngSize c (hd frames) (mFps this1) options (mDraftScale this1) of
            Inl e \<Rightarrow> (this1, Some e)
          | Inr n \<Rightarrow> generateEntries c frames (this1\<lparr>mTypicalDngSize := n\<rparr>))))"

definition updateOptions :: "('cfg, 'meta) Collaborators \<Rightarrow> FileRenderOptions \<Rightarrow> int
    \<Rightarrow> VirtualFileSystemImpl_MCRAW \<Rightarrow> VirtualFileSystemImpl_MCRAW \<times> exn option" where
  "updateOptions c options draftScale this = init c options (this\<lparr>mDraftScale := draftScale\<rparr>)"

text \<open>The constructor: the members' initial values, then \<^verbatim>\<open>init\<close>.\<close>

definition newVirtualFileSystem :: "('cfg, 'meta) Collaborators \<Rightarrow> FileRenderOptions \<Rightarrow> int
    \<Rightarrow> VirtualFileSystemImpl_MCRAW \<times> exn option" where
  "newVirtualFileSystem c options draftScale =
     init c options \<lparr>mFiles = [], mAudioFile = [], mTypicalDngSize = 0, mFps = 0, mDraftScale = draftScale\<rparr>"

subsection \<open>generateFrame\<close>

text \<open>
  The task submitted to the I/O pool (lines 312 to 342). An exception it throws is stored
  in its future.
\<close>

definition decodeTask :: "('cfg, 'meta) Collaborators \<Rightarrow> Entry
    \<Rightarrow> exn + nat \<times> 'cfg \<times> 'meta \<times> 8 word list" where
  "decodeTask c entry =
     (case userData entry of
        None \<Rightarrow> Inl (OtherException ''bad_variant_access'')
      | Some timestamp \<Rightarrow>
          (let allFrames = getFrames c in
           if timestamp \<notin> set allFrames then Inl (RuntimeError ''Failed to find frame'')
           else
             (case loadFrame c timestamp of
                Inl e \<Rightarrow> Inl e
              | Inr (data, metadata) \<Rightarrow>
                  (let frameIndex = length (takeWhile (\<lambda>t. t \<noteq> timestamp) allFrames) in
                   (case parseCameraConfiguration c (getContainerMetadata c) of
                      Inl e \<Rightarrow> Inl e
                    | Inr containerMetadata \<Rightarrow>
                        (case parseCameraFrameMetadata c metadata of
                           Inl e \<Rightarrow> Inl e
                         | Inr frameMetadata \<Rightarrow>
                             Inr (frameIndex, containerMetadata, frameMetadata, data)))))))"

text \<open>
  What the task on the processing pool does with the completion callback \<^verbatim>\<open>result\<close>:
  it calls it once, or an exception that is not a \<^verbatim>\<open>std::runtime_error\<close> leaves the task
  (the pool stores it in a future nobody reads) and the callback is never called.
\<close>

datatype completion = Result nat int | Escaped exn

text \<open>
  The body of the \<^verbatim>\<open>try\<close> block (lines 354 to 374): the bytes copied to \<open>dst\<close>, with
  \<open>readBytes\<close> and \<open>errorCode\<close>, which start as \<open>0\<close> and \<open>-1\<close>.
\<close>

definition copyDng :: "8 word list option \<Rightarrow> nat \<Rightarrow> nat \<Rightarrow> 8 word list \<Rightarrow> 8 word list \<times> nat \<times> int" where
  "copyDng dngData pos len dst =
     (case dngData of
        None \<Rightarrow> (dst, 0, - 1)
      | Some bytes \<Rightarrow>
          if pos < length bytes then
            let actualLen = min len (length bytes - pos)
            in (take actualLen (drop pos bytes) @ drop actualLen dst, actualLen, 0)
          else (dst, 0, - 1))"

definition generateTask :: "('cfg, 'meta) Collaborators \<Rightarrow> exn + nat \<times> 'cfg \<times> 'meta \<times> 8 word list
    \<Rightarrow> real \<Rightarrow> int \<Rightarrow> FileRenderOptions \<Rightarrow> nat \<Rightarrow> nat \<Rightarrow> 8 word list \<Rightarrow> 8 word list \<times> completion" where
  "generateTask c decodedFrame fps draftScale options pos len dst =
     (case (case decodedFrame of
              Inl e \<Rightarrow> Inl e
            | Inr (frameIndex, containerMetadata, frameMetadata, frameData) \<Rightarrow>
                generateDng c frameData frameMetadata containerMetadata fps frameIndex options
                  (getScaleFromOptions (RENDER_OPT_DRAFT c) options draftScale)) of
        Inl (RuntimeError msg) \<Rightarrow> (dst, Result 0 (- 1))
      | Inl (OtherException msg) \<Rightarrow> (dst, Escaped (OtherException msg))
      | Inr dngData \<Rightarrow>
          (case copyDng dngData pos len dst of
             (dst', readBytes, errorCode) \<Rightarrow> (dst', Result readBytes errorCode)))"

text \<open>
  \<^verbatim>\<open>generateFrame\<close> submits both tasks and returns \<open>0\<close>; the model gives the returned
  value, the destination buffer once the second task has run, and what happened to the
  callback.
\<close>

definition generateFrame :: "('cfg, 'meta) Collaborators \<Rightarrow> VirtualFileSystemImpl_MCRAW \<Rightarrow> Entry
    \<Rightarrow> FileRenderOptions \<Rightarrow> nat \<Rightarrow> nat \<Rightarrow> 8 word list \<Rightarrow> nat \<times> 8 word list \<times> completion" where
  "generateFrame c this entry options pos len dst =
     (case generateTask c (decodeTask c entry) (mFps this) (mDraftScale this) options pos len dst of
        (dst', done) \<Rightarrow> (0, dst', done))"

section \<open>bw64: utils.hpp and parser.hpp\<close>

text \<open>
  A stream positioned somewhere in a file is the list of the bytes still to be read. A
  read that asks for more bytes than are left sets the end-of-file flag, which
  \<^verbatim>\<open>readValue\<close> turns into an exception.
\<close>

type_synonym StreamWrapper = "8 word list"

definition andThen :: "exn + 'a \<Rightarrow> ('a \<Rightarrow> exn + 'b) \<Rightarrow> exn + 'b" where
  "andThen m f = (case m of Inl e \<Rightarrow> Inl e | Inr x \<Rightarrow> f x)"

text \<open>The value of a little-endian byte sequence.\<close>

fun le_nat :: "8 word list \<Rightarrow> nat" where
  "le_nat [] = 0"
| "le_nat (b # bs) = unat b + 256 * le_nat bs"

definition fourCC :: "string \<Rightarrow> 32 word" where
  "fourCC p = push_bit 24 (of_char (p ! 3)) OR push_bit 16 (of_char (p ! 2))
              OR push_bit 8 (of_char (p ! 1)) OR of_char (p ! 0)"

text \<open>\<^verbatim>\<open>readValue\<close> for an unsigned integer of the width of the result type.\<close>

definition readValue :: "StreamWrapper \<Rightarrow> exn + 'a::len word \<times> StreamWrapper" where
  "readValue stream =
     (let n = LENGTH('a) div 8 in
      if length stream < n then Inl (RuntimeError ''file ended while reading value'')
      else Inr (word_of_nat (le_nat (take n stream)), drop n stream))"

text \<open>\<^verbatim>\<open>readValue\<close> for a \<^verbatim>\<open>char\<close> array of \<open>n\<close> elements.\<close>

definition readChars :: "nat \<Rightarrow> StreamWrapper \<Rightarrow> exn + 8 word list \<times> StreamWrapper" where
  "readChars n stream =
     (if length stream < n then Inl (RuntimeError ''file ended while reading value'')
      else Inr (take n stream, drop n stream))"

text \<open>
  \<^verbatim>\<open>ExtraData\<close> and \<^verbatim>\<open>FormatInfoChunk\<close> are declared in chunks.hpp, outside the source
  tree. \<^verbatim>\<open>ExtraData\<close> holds the four values its constructor is given. Of
  \<^verbatim>\<open>FormatInfoChunk\<close> the parser uses the constructor and two accessors, which are
  parameters here; each may throw.
\<close>

record ExtraData =
  validBitsPerSample :: "16 word"
  dwChannelMask :: "32 word"
  subFormat :: "16 word"
  subFormatString :: "8 word list"

record 'c FormatInfoChunk_class =
  make_FormatInfoChunk :: "16 word \<Rightarrow> 32 word \<Rightarrow> 16 word \<Rightarrow> ExtraData option \<Rightarrow> exn + 'c"
  blockAlignment_of :: "'c \<Rightarrow> exn + 16 word"
  bytesPerSecond_of :: "'c \<Rightarrow> exn + 32 word"

definition parseExtraData :: "StreamWrapper \<Rightarrow> exn + ExtraData \<times> StreamWrapper" where
  "parseExtraData stream =
     andThen (readValue stream) (\<lambda>(validBits, s1).
     andThen (readValue s1) (\<lambda>(channelMask, s2).
     andThen (readValue s2) (\<lambda>(subFmt, s3).
     andThen (readChars 14 s3) (\<lambda>(subFmtString, s4).
       Inr (\<lparr>validBitsPerSample = validBits, dwChannelMask = channelMask,
             subFormat = subFmt, subFormatString = subFmtString\<rparr>, s4)))))"

text \<open>Lines 48 to 62: the fields of the chunk, with the extra data when there is any.\<close>

definition readFormatInfo :: "StreamWrapper \<Rightarrow> 64 word
    \<Rightarrow> exn + (16 word \<times> 16 word \<times> 32 word \<times> 32 word \<times> 16 word \<times> 16 word \<times> 16 word \<times> ExtraData option)
            \<times> StreamWrapper" where
  "readFormatInfo stream chunkSize =
     andThen (readValue stream) (\<lambda>(formatTag, s1).
     andThen (readValue s1) (\<lambda>(channelCount, s2).
     andThen (readValue s2) (\<lambda>(sampleRate, s3).
     andThen (readValue s3) (\<lambda>(bytesPerSecond, s4).
     andThen (readValue s4) (\<lambda>(blockAlignment, s5).
     andThen (readValue s5) (\<lambda>(bitsPerSample, s6).
     andThen (if chunkSize > 16 then readValue s6 else Inr (0, s6)) (\<lambda>(cbSize, s7).
     andThen (if chunkSize > 18 \<and> cbSize > 0
              then andThen (parseExtraData s7) (\<lambda>(e, s8). Inr (Some e, s8))
              else Inr (None, s7)) (\<lambda>(extraData, s8).
       Inr ((formatTag, channelCount, sampleRate, bytesPerSecond, blockAlignment, bitsPerSample,
             cbSize, extraData), s8)))))))))"

text \<open>Lines 64 to 102: the checks, once every field has been read.\<close>

definition checkFormatInfo :: "'c FormatInfoChunk_class \<Rightarrow> 16 word \<Rightarrow> 16 word \<Rightarrow> 32 word \<Rightarrow> 32 word
    \<Rightarrow> 16 word \<Rightarrow> 16 word \<Rightarrow> 16 word \<Rightarrow> ExtraData option \<Rightarrow> exn + 'c" where
  "checkFormatInfo cls formatTag channelCount sampleRate bytesPerSecond blockAlignment
       bitsPerSample cbSize extraData =
     (if cbSize \<noteq> 0 \<and> cbSize \<noteq> 22 then Inl (RuntimeError ''unsupported cbSize'')
      else if formatTag \<noteq> 1 \<and> formatTag \<noteq> 0xfffe then Inl (RuntimeError ''format unsupported'')
      else if formatTag = 0xfffe \<and> extraData = None
        then Inl (RuntimeError ''missing extra data for WAVE_FORMAT_EXTENSIBLE'')
      else if formatTag = 0xfffe \<and> subFormat (the extraData) \<noteq> 1
        then Inl (RuntimeError ''subformat unsupported'')
      else
        andThen (make_FormatInfoChunk cls channelCount sampleRate bitsPerSample extraData)
          (\<lambda>formatInfoChunk.
        andThen (blockAlignment_of cls formatInfoChunk) (\<lambda>ba.
          if ba \<noteq> blockAlignment then Inl (RuntimeError ''sanity check failed. blockAlignment'')
          else
            andThen (bytesPerSecond_of cls formatInfoChunk) (\<lambda>bps.
              if bps \<noteq> bytesPerSecond then Inl (RuntimeError ''sanity check failed. bytesPerSecond'')
              else Inr formatInfoChunk))))"

definition parseFormatInfoChunk :: "'c FormatInfoChunk_class \<Rightarrow> StreamWrapper \<Rightarrow> 32 word \<Rightarrow> 64 word
    \<Rightarrow> exn + 'c \<times> StreamWrapper" where
  "parseFormatInfoChunk cls stream ident chunkSize =
     (if ident \<noteq> fourCC ''fmt '' then Inl (RuntimeError ''chunkId != fmt'')
      else if chunkSize \<noteq> 16 \<and> chunkSize \<noteq> 18 \<and> chunkSize \<noteq> 40
        then Inl (RuntimeError ''illegal fmt chunk size'')
      else
        andThen (readFormatInfo stream chunkSize)
          (\<lambda>((formatTag, channelCount, sampleRate, bytesPerSecond, blockAlignment, bitsPerSample,
               cbSize, extraData), s8).
        andThen (checkFormatInfo cls formatTag channelCount sampleRate bytesPerSecond blockAlignment
                   bitsPerSample cbSize extraData) (\<lambda>formatInfoChunk.
          Inr (formatInfoChunk, s8))))"

text \<open>
  The formats the data model calls legal: plain PCM (tag 1), and the extensible format
  (tag \<open>0xFFFE\<close>) whose extra data carries subformat 1.
\<close>

definition legalFormat :: "16 word \<Rightarrow> ExtraData option \<Rightarrow> bool" where
  "legalFormat formatTag extraData \<longleftrightarrow>
     formatTag = 1 \<or>
     formatTag = 0xfffe \<and> (case extraData of None \<Rightarrow> False | Some e \<Rightarrow> subFormat e = 1)"

text \<open>
  Modelled from the spec: the class \<^verbatim>\<open>FormatInfoChunk\<close> of chunks.hpp, which is not
  among the source files. The spec gives its fields, block alignment
  \<open>channels * bits / 8\<close> and bytes per second \<open>sample_rate * block_alignment\<close>.
\<close>

record FormatInfoChunk =
  fmt_channelCount :: "16 word"
  fmt_sampleRate :: "32 word"
  fmt_bitsPerSample :: "16 word"
  fmt_extraData :: "ExtraData option"

definition blockAlignment :: "FormatInfoChunk \<Rightarrow> 16 word" where
  "blockAlignment f = word_of_nat (unat (fmt_channelCount f) * unat (fmt_bitsPerSample f) div 8)"

definition bytesPerSecond :: "FormatInfoChunk \<Rightarrow> 32 word" where
  "bytesPerSecond f = word_of_nat (unat (fmt_sampleRate f) * unat (blockAlignment f))"

definition FormatInfoChunk_spec :: "FormatInfoChunk FormatInfoChunk_class" where
  "FormatInfoChunk_spec =
     \<lparr>make_FormatInfoChunk = (\<lambda>ch sr bits extra.
        Inr \<lparr>fmt_channelCount = ch, fmt_sampleRate = sr, fmt_bitsPerSample = bits, fmt_extraData = extra\<rparr>),
      blockAlignment_of = (\<lambda>f. Inr (blockAlignment f)),
      bytesPerSecond_of = (\<lambda>f. Inr (bytesPerSecond f))\<rparr>"

section \<open>bw64: reader.hpp\<close>

text \<open>
  \<^verbatim>\<open>decodePcmSamples\<close> for \<^verbatim>\<open>T = float\<close>. A 16-bit sample is the little-endian value
  of two bytes read as a signed 16-bit integer; a 24-bit sample fills the upper three
  bytes of a signed 32-bit integer, a 32-bit sample all four, and both are divided by the
  \<^verbatim>\<open>float\<close> literal \<^verbatim>\<open>2147483647.f\<close>.
\<close>

definition decodeSample :: "8 word list \<Rightarrow> nat \<Rightarrow> nat \<Rightarrow> real" where
  "decodeSample inBuffer bitsPerSample i =
     (let bytesPerSample = bitsPerSample div 8; b = (\<lambda>k. inBuffer ! (i * bytesPerSample + k)) in
      if bitsPerSample = 16
      then toFloat (of_int (sint (word_of_nat (le_nat [b 0, b 1]) :: 16 word)))
      else if bitsPerSample = 24
      then toFloat (toFloat (of_int (sint (word_of_nat (le_nat [0, b 0, b 1, b 2]) :: 32 word)))
                    / toFloat 2147483647)
      else toFloat (toFloat (of_int (sint (word_of_nat (le_nat [b 0, b 1, b 2, b 3]) :: 32 word)))
                    / toFloat 2147483647))"

definition decodePcmSamples :: "8 word list \<Rightarrow> nat \<Rightarrow> 16 word \<Rightarrow> exn + real list" where
  "decodePcmSamples inBuffer numberOfSamples bitsPerSample =
     (if bitsPerSample = 16 \<or> bitsPerSample = 24 \<or> bitsPerSample = 32
      then Inr (map (decodeSample inBuffer (unat bitsPerSample)) [0..<numberOfSamples])
      else Inl (RuntimeError ''unsupported number of bits''))"

text \<open>
  The reader, as far as \<^verbatim>\<open>read\<close> and \<^verbatim>\<open>tell\<close> look at it: the bytes of the file and the
  position of the stream in it, the header of the data chunk (its position in the file
  and its size), the format, and the buffer of raw bytes.
\<close>

record Bw64Reader =
  fileBytes :: "8 word list"
  tellg :: nat
  dataChunkPosition :: "64 word"
  dataChunkSize :: "64 word"
  reader_channelCount :: "16 word"
  reader_bitsPerSample :: "16 word"
  rawDataBuffer :: "8 word list"

text \<open>
  \<^verbatim>\<open>safeCast<uint16_t>\<close> of a 32-bit unsigned value: only the upper bound is checked.
\<close>

definition safeCast_u16 :: "32 word \<Rightarrow> exn + 16 word" where
  "safeCast_u16 x = (if x > 65535 then Inl (RuntimeError ''overflow'') else Inr (ucast x))"

definition reader_blockAlignment :: "Bw64Reader \<Rightarrow> exn + 16 word" where
  "reader_blockAlignment r = safeCast_u16 ((ucast (reader_channelCount r) * ucast (reader_bitsPerSample r)) div 8)"

text \<open>
  Division of unsigned integers by zero is undefined in C++; the model reports it as a
  fault.
\<close>

definition udiv :: "64 word \<Rightarrow> 64 word \<Rightarrow> exn + 64 word" where
  "udiv a b = (if b = 0 then Inl (OtherException ''division by zero'') else Inr (a div b))"

definition numberOfFrames :: "Bw64Reader \<Rightarrow> exn + 64 word" where
  "numberOfFrames r = andThen (reader_blockAlignment r) (\<lambda>ba. udiv (dataChunkSize r) (ucast ba))"

text \<open>
  \<^verbatim>\<open>tell\<close> divides by the block alignment of the format chunk, whose channel count and bit
  depth are the ones the reader holds.
\<close>

definition tell :: "Bw64Reader \<Rightarrow> exn + 64 word" where
  "tell r = udiv (word_of_nat (tellg r) - dataChunkPosition r - 8)
              (ucast (blockAlignment \<lparr>fmt_channelCount = reader_channelCount r, fmt_sampleRate = 0,
                                       fmt_bitsPerSample = reader_bitsPerSample r, fmt_extraData = None\<rparr>))"

text \<open>
  \<^verbatim>\<open>std::vector<char>::resize\<close> throws \<^verbatim>\<open>std::length_error\<close> beyond \<^verbatim>\<open>max_size()\<close>, which
  is at most the largest value of \<^verbatim>\<open>ptrdiff_t\<close>.
\<close>

definition vector_max_size :: nat where
  "vector_max_size = 2 ^ 63 - 1"

text \<open>
  \<^verbatim>\<open>read\<close> returns the number of frames, the output buffer and the reader after the call,
  or the exception.
\<close>

definition read :: "Bw64Reader \<Rightarrow> real list \<Rightarrow> 64 word \<Rightarrow> exn + 64 word \<times> real list \<times> Bw64Reader" where
  "read r outBuffer frames =
     andThen (tell r) (\<lambda>t.
     andThen (numberOfFrames r) (\<lambda>n.
       let frames' = (if t + frames > n then n - t else frames) in
       if frames' \<noteq> 0 then
         andThen (reader_blockAlignment r) (\<lambda>ba.
           let nbytes = unat (frames' * ucast ba) in
           if nbytes > vector_max_size then Inl (OtherException ''length_error'')
           else if length (fileBytes r) - tellg r < nbytes
             then Inl (RuntimeError ''file ended while reading frames'')
           else
             let raw = take nbytes (drop (tellg r) (fileBytes r)) in
             andThen (decodePcmSamples raw (unat (frames' * ucast (reader_channelCount r))) (reader_bitsPerSample r))
               (\<lambda>samples.
                 Inr (frames', samples @ drop (length samples) outBuffer,
                      r\<lparr>tellg := tellg r + nbytes, rawDataBuffer := raw\<rparr>)))
       else Inr (frames', outBuffer, r)))"

section \<open>Example inputs\<close>

text \<open>
  A capture of two frames one second apart and no audio, whose encoder returns the raw
  frame bytes (four of them) as the image.
\<close>

definition exampleCapture :: "(unit, unit) Collaborators" where
  "exampleCapture =
     \<lparr>getFrames = [0, 1000000000],
      loadFrame = (\<lambda>t. Inr ([1, 2, 3, 4], [])),
      getContainerMetadata = [],
      loadAudio = [],
      audioSampleRateHz = 48000,
      numAudioChannels = 2,
      parseCameraConfiguration = (\<lambda>s. Inr ()),
      parseCameraFrameMetadata = (\<lambda>s. Inr ()),
      generateDng = (\<lambda>data meta cfg fps frameIndex options scale. Inr (Some data)),
      writeAudio = (\<lambda>buffer channels rate fps chunks. Inr buffer),
      RENDER_OPT_DRAFT = 1,
      win32 = False\<rparr>"

text \<open>The state the constructor reaches on that capture.\<close>

definition exampleState :: VirtualFileSystemImpl_MCRAW where
  "exampleState =
     \<lparr>mFiles = [frameEntry 0 1000000000 4], mAudioFile = [], mTypicalDngSize = 4,
      mFps = 1, mDraftScale = 1\<rparr>"

text \<open>
  A reader of a 64-byte file whose data chunk starts at byte 36 and holds ten frames of
  16-bit mono; the stream stands at the second frame.
\<close>

definition exampleReader :: Bw64Reader where
  "exampleReader =
     \<lparr>fileBytes = replicate 64 0, tellg = 46, dataChunkPosition = 36, dataChunkSize = 20,
      reader_channelCount = 1, reader_bitsPerSample = 16, rawDataBuffer = []\<rparr>"

text \<open>
  Five fmt chunks for two channels of 16 bits at 48 kHz: plain PCM, the extensible format
  with subformat 1, format tag 3, the extensible format with subformat 3, and the tag of
  the extensible format in a chunk of 16 bytes, which has no extra data.
\<close>

definition pcmFormatBytes :: "8 word list" where
  "pcmFormatBytes = [0x01, 0x00, 0x02, 0x00, 0x80, 0xBB, 0x00, 0x00,
                     0x00, 0xEE, 0x02, 0x00, 0x04, 0x00, 0x10, 0x00]"

definition extensibleFormatBytes :: "8 word list" where
  "extensibleFormatBytes = [0xFE, 0xFF, 0x02, 0x00, 0x80, 0xBB, 0x00, 0x00,
                            0x00, 0xEE, 0x02, 0x00, 0x04, 0x00, 0x10, 0x00,
                            0x16, 0x00, 0x10, 0x00, 0x03, 0x00, 0x00, 0x00,
                            0x01, 0x00, 0x00, 0x00, 0x00, 0x00, 0x10, 0x00,
                            0x80, 0x00, 0x00, 0xAA, 0x00, 0x38, 0x9B, 0x71]"

definition floatFormatBytes :: "8 word list" where
  "floatFormatBytes = [0x03, 0x00, 0x02, 0x00, 0x80, 0xBB, 0x00, 0x00,
                       0x00, 0xEE, 0x02, 0x00, 0x04, 0x00, 0x10, 0x00]"

definition extensibleFloatFormatBytes :: "8 word list" where
  "extensibleFloatFormatBytes = [0xFE, 0xFF, 0x02, 0x00, 0x80, 0xBB, 0x00, 0x00,
                                 0x00, 0xEE, 0x02, 0x00, 0x04, 0x00, 0x10, 0x00,
                                 0x16, 0x00, 0x10, 0x00, 0x03, 0x00, 0x00, 0x00,
                                 0x03, 0x00, 0x00, 0x00, 0x00, 0x00, 0x10, 0x00,
                                 0x80, 0x00, 0x00, 0xAA, 0x00, 0x38, 0x9B, 0x71]"

definition extensibleBareFormatBytes :: "8 word list" where
  "extensibleBareFormatBytes = [0xFE, 0xFF, 0x02, 0x00, 0x80, 0xBB, 0x00, 0x00,
                                0x00, 0xEE, 0x02, 0x00, 0x04, 0x00, 0x10, 0x00]"

section \<open>Properties of the rounding\<close>

lemma real_pow2_le: "(2::nat) ^ j \<le> n \<Longrightarrow> (2::real) ^ j \<le> real n"
  by (metis of_nat_le_iff of_nat_numeral of_nat_power)

lemma real_lt_pow2: "n < (2::nat) ^ j \<Longrightarrow> real n < 2 ^ j"
  by (metis of_nat_less_iff of_nat_numeral of_nat_power)

lemma pow2_powi: "pow2 k = 2 powi k"
  by (simp add: pow2_def power_int_def inverse_eq_divide power_one_over)

lemma pow2_pos: "0 < pow2 k"
  by (simp add: pow2_powi)

lemma pow2_add: "pow2 (a + b) = pow2 a * pow2 b"
  by (simp add: pow2_powi power_int_add)

lemma pow2_mono: "a \<le> b \<Longrightarrow> pow2 a \<le> pow2 b"
  by (simp add: pow2_powi power_int_increasing)

lemma pow2_nat: "pow2 (int n) = 2 ^ n"
  by (simp add: pow2_def)

lemma pow2_neg_nat: "pow2 (- int n) = 1 / 2 ^ n"
  by (auto simp: pow2_def)

lemma floorlog_pos: "0 < n \<Longrightarrow> 0 < floorlog 2 n"
  using floorlog_eq_zero_iff[of 2 n] by auto

lemma ilog2_ge1:
  assumes "1 \<le> x"
  shows "pow2 (ilog2 x) \<le> x" and "x < pow2 (ilog2 x + 1)"
proof -
  define n where "n = nat \<lfloor>x\<rfloor>"
  have n: "0 < n" using assms by (simp add: n_def)
  have fl: "0 < floorlog 2 n" using n by (rule floorlog_pos)
  have lo: "real n \<le> x"
    using assms unfolding n_def by simp
  have hi: "x < real n + 1"
    using assms unfolding n_def by (simp; linarith)
  have e1: "ilog2 x = int (floorlog 2 n - 1)"
    using assms fl by (simp add: ilog2_def n_def)
  have e2: "ilog2 x + 1 = int (floorlog 2 n)"
    using assms by (simp add: ilog2_def n_def)
  have "(2::nat) ^ (floorlog 2 n - 1) \<le> n"
    using floorlog_bounds[of n 2] n by simp
  then have "(2::real) ^ (floorlog 2 n - 1) \<le> real n"
    by (rule real_pow2_le)
  then show "pow2 (ilog2 x) \<le> x"
    using lo unfolding e1 pow2_nat by linarith
  have "n < 2 ^ floorlog 2 n"
    using floorlog_bounds[of n 2] n by simp
  then have "n + 1 \<le> 2 ^ floorlog 2 n" by simp
  then have "(2::nat) ^ floorlog 2 n \<ge> n + 1" by simp
  then have "real (n + 1) \<le> 2 ^ floorlog 2 n"
    by (metis of_nat_le_iff of_nat_numeral of_nat_power)
  then show "x < pow2 (ilog2 x + 1)"
    using hi unfolding e2 pow2_nat by simp
qed

lemma ilog2_lt1:
  assumes "0 < x" "x < 1"
  shows "pow2 (ilog2 x) \<le> x" and "x < pow2 (ilog2 x + 1)"
proof -
  define m where "m = \<lceil>1 / x\<rceil>"
  define k where "k = floorlog 2 (nat (m - 1))"
  have "1 < 1 / x" using assms by simp
  then have m2: "2 \<le> m" unfolding m_def by linarith
  then have pos: "0 < nat (m - 1)" by simp
  then have kpos: "0 < k" unfolding k_def by (rule floorlog_pos)
  have up: "1 / x \<le> real_of_int m" and low: "real_of_int m - 1 < 1 / x"
    unfolding m_def by linarith+
  have cast: "real (nat (m - 1)) = real_of_int m - 1" using m2 by simp
  have e1: "ilog2 x = - int k"
    using assms by (simp add: ilog2_def k_def m_def)
  have e2: "ilog2 x + 1 = - int (k - 1)"
    using kpos unfolding e1 by simp
  have "nat (m - 1) < 2 ^ k"
    using floorlog_bounds[of "nat (m - 1)" 2] pos by (simp add: k_def)
  then have "real (nat (m - 1)) < 2 ^ k" by (rule real_lt_pow2)
  then have "real_of_int m - 1 < 2 ^ k" unfolding cast .
  then have "real_of_int (m - 1) < real_of_int (2 ^ k)" by simp
  then have "m - 1 < 2 ^ k" unfolding of_int_less_iff .
  then have "m \<le> 2 ^ k" by simp
  then have "real_of_int m \<le> real_of_int (2 ^ k)" unfolding of_int_le_iff .
  moreover have "real_of_int (2 ^ k) = 2 ^ k" by simp
  ultimately have "1 / x \<le> 2 ^ k" using up by linarith
  then have "1 / 2 ^ k \<le> x" using assms(1)
    by (simp add: field_simps)
  then show "pow2 (ilog2 x) \<le> x"
    unfolding e1 pow2_neg_nat .
  have "(2::nat) ^ (k - 1) \<le> nat (m - 1)"
    using floorlog_bounds[of "nat (m - 1)" 2] pos by (simp add: k_def)
  then have "(2::real) ^ (k - 1) \<le> real (nat (m - 1))" by (rule real_pow2_le)
  then have "2 ^ (k - 1) < 1 / x" using low unfolding cast by linarith
  then have "x < 1 / 2 ^ (k - 1)" using assms(1)
    by (simp add: field_simps)
  then show "x < pow2 (ilog2 x + 1)"
    unfolding e2 pow2_neg_nat .
qed

lemma ilog2_bounds:
  assumes "0 < x"
  shows "pow2 (ilog2 x) \<le> x" and "x < pow2 (ilog2 x + 1)"
  using assms ilog2_ge1[of x] ilog2_lt1[of x] by (cases "1 \<le> x"; simp)+

lemma rne_cases: "rne x = \<lfloor>x\<rfloor> \<or> rne x = \<lfloor>x\<rfloor> + 1"
  by (simp add: rne_def Let_def)


lemma rne_of_int: "rne (of_int k) = k"
  by (simp add: rne_def)

lemma rne_mono:
  assumes "x \<le> y"
  shows "rne x \<le> rne y"
proof (cases "\<lfloor>x\<rfloor> = \<lfloor>y\<rfloor>")
  case True
  then show ?thesis using assms
    by (auto simp: rne_def Let_def)
next
  case False
  then have "\<lfloor>x\<rfloor> < \<lfloor>y\<rfloor>" using assms floor_mono[of x y] by linarith
  moreover have "rne x \<le> \<lfloor>x\<rfloor> + 1" using rne_cases[of x] by auto
  moreover have "\<lfloor>y\<rfloor> \<le> rne y" using rne_cases[of y] by auto
  ultimately show ?thesis by linarith
qed

lemma floor_neg_nonint:
  fixes x :: real
  assumes "x \<noteq> of_int \<lfloor>x\<rfloor>"
  shows "\<lfloor>- x\<rfloor> = - \<lfloor>x\<rfloor> - 1"
proof -
  have "of_int \<lfloor>x\<rfloor> \<le> x" by (rule of_int_floor_le)
  with assms have lt: "of_int \<lfloor>x\<rfloor> < x" by (metis order_le_less)
  have gt: "x < of_int \<lfloor>x\<rfloor> + 1" by linarith
  have c: "real_of_int (- \<lfloor>x\<rfloor> - 1) = - real_of_int \<lfloor>x\<rfloor> - 1" by simp
  have "real_of_int (- \<lfloor>x\<rfloor> - 1) \<le> - x"
    unfolding c using gt by linarith
  moreover have "- x < real_of_int (- \<lfloor>x\<rfloor> - 1) + 1"
    unfolding c using lt by linarith
  ultimately show ?thesis
    by (simp only: floor_eq_iff)
qed

lemma rne_neg: "rne (- x) = - rne x"
proof (cases "x = of_int \<lfloor>x\<rfloor>")
  case True
  then have "rne x = \<lfloor>x\<rfloor>" by (metis rne_of_int)
  moreover have "- x = of_int (- \<lfloor>x\<rfloor>)" using True by simp
  then have "rne (- x) = - \<lfloor>x\<rfloor>" by (metis rne_of_int)
  ultimately show ?thesis by simp
next
  case False
  define f where "f = \<lfloor>x\<rfloor>"
  define r where "r = x - of_int f"
  have fl: "\<lfloor>- x\<rfloor> = - f - 1" using False unfolding f_def by (rule floor_neg_nonint)
  have r': "- x - of_int (- f - 1) = 1 - r" by (simp add: r_def)
  have A: "rne x = (if r < 1 / 2 then f else if 1 / 2 < r then f + 1 else if even f then f else f + 1)"
    by (simp add: rne_def Let_def f_def r_def)
  have B: "rne (- x) = (if 1 - r < 1 / 2 then - f - 1 else if 1 / 2 < 1 - r then - f
                         else if even (- f - 1) then - f - 1 else - f)"
    unfolding rne_def Let_def fl r' by simp
  consider "r < 1 / 2" | "1 / 2 < r" | "r = 1 / 2" by linarith
  then show ?thesis
  proof cases
    case 1
    then show ?thesis unfolding A B by simp
  next
    case 2
    then show ?thesis unfolding A B by simp
  next
    case 3
    then show ?thesis unfolding A B by simp
  qed
qed

lemma round_to_pos_unfold:
  "0 < x \<Longrightarrow> round_to p x = of_int (rne (x / pow2 (ilog2 x - int p + 1))) * pow2 (ilog2 x - int p + 1)"
  by (simp add: round_to_def Let_def)

lemma ulp_scale:
  assumes "1 \<le> p"
  shows "pow2 (e - int p + 1) * 2 ^ (p - 1) = pow2 e"
    and "pow2 (e - int p + 1) * 2 ^ p = pow2 (e + 1)"
proof -
  have "pow2 (e - int p + 1) * pow2 (int (p - 1)) = pow2 (e - int p + 1 + int (p - 1))"
    by (rule pow2_add [symmetric])
  moreover have "e - int p + 1 + int (p - 1) = e" using assms by simp
  ultimately show "pow2 (e - int p + 1) * 2 ^ (p - 1) = pow2 e"
    by (simp only: pow2_nat)
  have "pow2 (e - int p + 1) * pow2 (int p) = pow2 (e - int p + 1 + int p)"
    by (rule pow2_add [symmetric])
  moreover have "e - int p + 1 + int p = e + 1" by simp
  ultimately show "pow2 (e - int p + 1) * 2 ^ p = pow2 (e + 1)"
    by (simp only: pow2_nat)
qed

lemma scaled_range:
  assumes "0 < x" "1 \<le> p"
  shows "2 ^ (p - 1) \<le> x / pow2 (ilog2 x - int p + 1)"
    and "x / pow2 (ilog2 x - int p + 1) < 2 ^ p"
proof -
  let ?u = "pow2 (ilog2 x - int p + 1)"
  have u: "0 < ?u" by (rule pow2_pos)
  have "?u * 2 ^ (p - 1) \<le> x"
    using ilog2_bounds(1)[OF assms(1)] ulp_scale(1)[OF assms(2), of "ilog2 x"] by simp
  then show "2 ^ (p - 1) \<le> x / ?u"
    using u by (simp add: field_simps)
  have "x < ?u * 2 ^ p"
    using ilog2_bounds(2)[OF assms(1)] ulp_scale(2)[OF assms(2), of "ilog2 x"] by simp
  then show "x / ?u < 2 ^ p"
    using u by (simp add: field_simps)
qed

lemma rne_scaled_range:
  assumes "0 < x" "1 \<le> p"
  shows "2 ^ (p - 1) \<le> rne (x / pow2 (ilog2 x - int p + 1))"
    and "rne (x / pow2 (ilog2 x - int p + 1)) \<le> 2 ^ p"
proof -
  let ?m = "x / pow2 (ilog2 x - int p + 1)"
  have "real_of_int (2 ^ (p - 1)) \<le> ?m"
    using scaled_range(1)[OF assms] by simp
  then have "rne (real_of_int (2 ^ (p - 1))) \<le> rne ?m" by (rule rne_mono)
  then show "2 ^ (p - 1) \<le> rne ?m" by (simp only: rne_of_int)
  have "?m \<le> real_of_int (2 ^ p)"
    using scaled_range(2)[OF assms] by simp
  then have "rne ?m \<le> rne (real_of_int (2 ^ p))" by (rule rne_mono)
  then show "rne ?m \<le> 2 ^ p" by (simp only: rne_of_int)
qed

lemma round_to_range:
  assumes "0 < x" "1 \<le> p"
  shows "pow2 (ilog2 x) \<le> round_to p x" and "round_to p x \<le> pow2 (ilog2 x + 1)"
proof -
  let ?u = "pow2 (ilog2 x - int p + 1)"
  let ?k = "rne (x / ?u)"
  have u: "0 < ?u" by (rule pow2_pos)
  have "real_of_int (2 ^ (p - 1)) \<le> real_of_int ?k"
    using rne_scaled_range(1)[OF assms] by (simp only: of_int_le_iff)
  then have "2 ^ (p - 1) * ?u \<le> real_of_int ?k * ?u"
    using u by simp
  then show "pow2 (ilog2 x) \<le> round_to p x"
    using ulp_scale(1)[OF assms(2), of "ilog2 x"] round_to_pos_unfold[OF assms(1), of p]
    by (simp add: mult.commute)
  have "real_of_int ?k \<le> real_of_int (2 ^ p)"
    using rne_scaled_range(2)[OF assms] by (simp only: of_int_le_iff)
  then have "real_of_int ?k * ?u \<le> 2 ^ p * ?u"
    using u by simp
  then show "round_to p x \<le> pow2 (ilog2 x + 1)"
    using ulp_scale(2)[OF assms(2), of "ilog2 x"] round_to_pos_unfold[OF assms(1), of p]
    by (simp add: mult.commute)
qed

lemma round_to_pos:
  assumes "0 < x" "1 \<le> p"
  shows "0 < round_to p x"
  using round_to_range(1)[OF assms] pow2_pos[of "ilog2 x"] by linarith

lemma round_to_neg: "round_to p (- x) = - round_to p x"
  by (simp add: round_to_def Let_def rne_neg)

lemma round_to_zero: "round_to p 0 = 0"
  by (simp add: round_to_def)

lemma round_to_neg_lt:
  assumes "x < 0" "1 \<le> p"
  shows "round_to p x < 0"
  using round_to_pos[of "- x" p] assms round_to_neg[of p x] by simp

lemma round_to_sign:
  assumes "1 \<le> p"
  shows "0 < round_to p x \<longleftrightarrow> 0 < x"
  using round_to_pos[of x p] round_to_neg_lt[of x p] round_to_zero[of p] assms
  by (cases "x = 0"; cases "0 < x"; simp; linarith)


lemma ilog2_mono:
  assumes "0 < x" "x \<le> y"
  shows "ilog2 x \<le> ilog2 y"
proof (rule ccontr)
  assume "\<not> ilog2 x \<le> ilog2 y"
  then have "ilog2 y + 1 \<le> ilog2 x" by simp
  then have "pow2 (ilog2 y + 1) \<le> pow2 (ilog2 x)" by (rule pow2_mono)
  moreover have "pow2 (ilog2 x) \<le> x" using assms(1) by (rule ilog2_bounds)
  moreover have "y < pow2 (ilog2 y + 1)" using assms by (intro ilog2_bounds) simp
  ultimately show False using assms(2) by linarith
qed

lemma round_to_mono_pos:
  assumes "0 < x" "x \<le> y" "1 \<le> p"
  shows "round_to p x \<le> round_to p y"
proof (cases "ilog2 x = ilog2 y")
  case True
  let ?u = "pow2 (ilog2 y - int p + 1)"
  have u: "0 < ?u" by (rule pow2_pos)
  have y: "0 < y" using assms by simp
  have "x / ?u \<le> y / ?u" using assms(2) u by (simp add: divide_right_mono)
  then have "rne (x / ?u) \<le> rne (y / ?u)" by (rule rne_mono)
  then have "real_of_int (rne (x / ?u)) \<le> real_of_int (rne (y / ?u))" by simp
  then have "real_of_int (rne (x / ?u)) * ?u \<le> real_of_int (rne (y / ?u)) * ?u"
    using u by (simp only: mult_le_cancel_right_pos)
  then show ?thesis
    using round_to_pos_unfold[OF assms(1), of p] round_to_pos_unfold[OF y, of p] True by simp
next
  case False
  have y: "0 < y" using assms by simp
  have "ilog2 x \<le> ilog2 y" using assms(1,2) by (rule ilog2_mono)
  with False have "ilog2 x + 1 \<le> ilog2 y" by simp
  then have "pow2 (ilog2 x + 1) \<le> pow2 (ilog2 y)" by (rule pow2_mono)
  moreover have "round_to p x \<le> pow2 (ilog2 x + 1)" using assms(1,3) by (rule round_to_range)
  moreover have "pow2 (ilog2 y) \<le> round_to p y" using y assms(3) by (rule round_to_range)
  ultimately show ?thesis by linarith
qed

lemma round_to_mono:
  assumes "x \<le> y" "1 \<le> p"
  shows "round_to p x \<le> round_to p y"
proof -
  consider "0 < x" | "x \<le> 0" "0 \<le> y" | "y < 0" using assms(1) by linarith
  then show ?thesis
  proof cases
    case 1
    then show ?thesis using assms by (rule round_to_mono_pos)
  next
    case 2
    have "round_to p x \<le> 0"
      using 2(1) round_to_neg_lt[of x p] round_to_zero[of p] assms(2) by (cases "x = 0") auto
    moreover have "0 \<le> round_to p y"
      using 2(2) round_to_pos[of y p] round_to_zero[of p] assms(2) by (cases "y = 0") auto
    ultimately show ?thesis by linarith
  next
    case 3
    then have "0 < - y" "- y \<le> - x" using assms(1) by simp_all
    then have "round_to p (- y) \<le> round_to p (- x)" using assms(2) by (rule round_to_mono_pos)
    then show ?thesis by (simp add: round_to_neg)
  qed
qed

lemma std_round_mono: "x \<le> y \<Longrightarrow> std_round x \<le> std_round y"
  unfolding std_round_def
  by (auto intro!: floor_mono; linarith?)

lemma toFloat_sign: "0 < toFloat x \<longleftrightarrow> 0 < x"
  unfolding toFloat_def by (rule round_to_sign) simp

lemma toDouble_sign: "0 < toDouble x \<longleftrightarrow> 0 < x"
  unfolding toDouble_def by (rule round_to_sign) simp

lemmas float_eval = toFloat_def toDouble_def round_to_def ilog2_def pow2_def rne_def
  compute_floorlog Let_def std_round_def float_to_int_def tdiv_def

section \<open>syncAudio\<close>

text \<open>An integer within the range of \<^verbatim>\<open>int\<close> is not changed by narrowing.\<close>

lemma narrow_int_id:
  assumes "- (2 ^ 31) \<le> v" "v < 2 ^ 31"
  shows "narrow_int v = v"
  using assms by (simp add: narrow_int_def sint_sbintrunc' signed_take_bit_int_eq_self)

lemma drift_pos_iff: "0 < audioVideoDriftMs a v \<longleftrightarrow> v < a"
proof -
  have k: "0 < toFloat (1 / 1000000)" by (simp add: toFloat_sign)
  have "0 < audioVideoDriftMs a v \<longleftrightarrow> 0 < toFloat (of_int (a - v)) * toFloat (1 / 1000000)"
    by (simp only: audioVideoDriftMs_def toFloat_sign)
  also have "\<dots> \<longleftrightarrow> 0 < toFloat (of_int (a - v))"
    using k by (simp add: zero_less_mult_iff)
  also have "\<dots> \<longleftrightarrow> v < a"
    by (simp add: toFloat_sign)
  finally show ?thesis .
qed

lemma syncAudio_trim:
  assumes "v < fst (hd chunks)"
  shows "syncAudio v chunks rate ch =
    trimChunks rate (narrow_int (audioFrames (audioVideoDriftMs (fst (hd chunks)) v) rate * ch)) 0 chunks"
  using assms by (simp add: syncAudio_def Let_def drift_pos_iff)

lemma syncAudio_silence:
  assumes "fst (hd chunks) \<le> v"
  shows "syncAudio v chunks rate ch =
    (if narrow_int (audioFrames (- audioVideoDriftMs (fst (hd chunks)) v) rate * ch) < 0
     then Inl (OtherException ''length_error'')
     else Inr ((v, replicate (nat (narrow_int (audioFrames (- audioVideoDriftMs (fst (hd chunks)) v) rate * ch))) 0) #
            map (\<lambda>(first, second). (addFloat first (- audioVideoDriftMs (fst (hd chunks)) v), second)) chunks))"
  using assms by (simp add: syncAudio_def Let_def drift_pos_iff)









lemma drift_100ms: "audioVideoDriftMs 100000000 0 = 100"
  by (simp add: audioVideoDriftMs_def float_eval)

lemma frames_100ms: "audioFrames 100 48000 = 4800"
  by (simp add: audioFrames_def float_to_int32_def float_eval)


lemma drift_50ms_early: "audioVideoDriftMs 0 50000000 = - 50"
  by (simp add: audioVideoDriftMs_def float_eval)

lemma frames_50ms: "audioFrames 50 48000 = 2400"
  by (simp add: audioFrames_def float_to_int32_def float_eval)

lemma drift_zero: "audioVideoDriftMs t t = 0"
  by (simp add: audioVideoDriftMs_def float_eval)

lemma frames_zero: "audioFrames 0 rate = 0"
  by (simp add: audioFrames_def float_to_int32_def float_eval)

lemma narrow_int_examples:
  "narrow_int 0 = 0" "narrow_int 4800 = 4800" "narrow_int 9600 = 9600"
  "narrow_int 8600 = 8600" "narrow_int 9600000 = 9600000" "narrow_int 1000 = 1000"
  "narrow_int 600 = 600" "narrow_int 600000 = 600000"
  by (simp_all add: narrow_int_def)

text \<open>
  The 32-bit arithmetic of \<^verbatim>\<open>syncAudio\<close> beyond its range. With the audio 30 s after the
  video, 2880000 samples are erased from a longer chunk and the product
  \<open>2880000 * 1000\<close> of line 145 overflows: the timestamp moves back by 29478. With the
  audio 100000 s after the video the frame count does not fit an \<^verbatim>\<open>int\<close>, the sample count
  comes out as 0 and nothing is removed. With the audio 25000 s before the video the
  product of line 155 is negative and the constructor of the silence throws.
\<close>

lemma syncAudio_trim_int_overflow:
  "syncAudio 0 [(30000000000, replicate 2880001 0)] 48000 2 = Inr [(29999970522, [0])]"
  "syncAudio 0 [(100000000000000, [1, 2])] 48000 2 = Inr [(100000000000000, [1, 2])]"
proof -
  have d: "audioVideoDriftMs 30000000000 0 = 30000"
    by (simp add: audioVideoDriftMs_def float_eval)
  have f: "audioFrames 30000 48000 = 1440000"
    by (simp add: audioFrames_def float_to_int32_def float_eval)
  have n: "narrow_int 2880000 = 2880000" "narrow_int 2880000000 = - 1414967296"
    by (simp_all add: narrow_int_def)
  show "syncAudio 0 [(30000000000, replicate 2880001 0)] 48000 2 = Inr [(29999970522, [0])]"
    by (simp add: syncAudio_trim d f n idiv_def tdiv_def)
  have d': "audioVideoDriftMs 100000000000000 0 = 100000000"
    by (simp add: audioVideoDriftMs_def float_eval)
  have f': "audioFrames 100000000 48000 = - 2147483648"
    by (simp add: audioFrames_def float_to_int32_def float_eval)
  have n': "narrow_int (- 4294967296) = 0"
    by (simp add: narrow_int_def)
  show "syncAudio 0 [(100000000000000, [1, 2])] 48000 2 = Inr [(100000000000000, [1, 2])]"
    by (simp add: syncAudio_trim d' f' n')
qed

lemma syncAudio_silence_int_overflow:
  "syncAudio 25000000000000 [(0, [1, 2])] 48000 2 = Inl (OtherException ''length_error'')"
proof -
  have d: "audioVideoDriftMs 0 25000000000000 = - 25000000"
    by (simp add: audioVideoDriftMs_def float_eval)
  have f: "audioFrames 25000000 48000 = 1200000000"
    by (simp add: audioFrames_def float_to_int32_def float_eval)
  have n: "narrow_int 2400000000 = - 1894967296"
    by (simp add: narrow_int_def)
  show ?thesis
    by (simp add: syncAudio_silence d f n)
qed

text \<open>
  C2: the code in the trimming branch. The video starts at 0 and the only audio chunk, of
  10000 samples, is stamped 100 ms, at 48 kHz stereo: the video starts before the audio.
  The test of line 123 sends this input to the trimming branch, where 9600 samples are
  erased and \<open>9600 * 1000 / 48000 = 200\<close> is added to the timestamp of the chunk. The first
  remaining chunk is stamped 100000200 and not 0, the video timestamp. The comment of line
  151, \<^verbatim>\<open>video starts before audio, add silence\<close>, names this very situation, and the
  branch below it is the one that stamps the first chunk with the video timestamp.
\<close>

theorem syncAudio_trim_first_timestamp:
  "syncAudio 0 [(100000000, replicate 10000 0)] 48000 2 = Inr [(100000200, replicate 400 0)]"
  by (simp add: syncAudio_trim drift_100ms frames_100ms narrow_int_examples idiv_def tdiv_def)

text \<open>
  In the branch that inserts silence, whatever \<^verbatim>\<open>syncAudio\<close> returns starts with a chunk
  stamped with the video timestamp.
\<close>

lemma syncAudio_silence_hd:
  assumes "fst (hd audioChunks) \<le> videoTimestamp"
    and "syncAudio videoTimestamp audioChunks sampleRate numChannels = Inr out"
  shows "out \<noteq> [] \<and> fst (hd out) = videoTimestamp"
  using assms(2) unfolding syncAudio_silence[OF assms(1)] by (auto split: if_splits)




text \<open>
  C6: the code at the claim's own example. The video starts at 50 ms and the only audio
  chunk at 0, at 48 kHz stereo. The silence chunk is stamped with the video timestamp and
  holds 4800 zero samples, as claimed; but the timestamp of the existing chunk moves from
  0 to 50, the drift in milliseconds, not to 50000000, the drift in nanoseconds.
\<close>

theorem syncAudio_silence_shift_milliseconds:
  "syncAudio 50000000 [(0, [1, 2])] 48000 2 = Inr [(50000000, replicate 4800 0), (50, [1, 2])]"
proof -
  have "addFloat 0 50 = 50" by (simp add: addFloat_def float_eval)
  then show ?thesis
    by (simp add: syncAudio_silence drift_50ms_early frames_50ms narrow_int_examples)
qed

text \<open>
  C10: the code at zero drift, with the video and the only audio chunk both stamped
  \<open>2 ^ 24 + 1\<close>. An empty chunk is prepended, as claimed; but the timestamp of the existing
  chunk passes through a \<^verbatim>\<open>float\<close> and comes back as \<open>2 ^ 24\<close>.
\<close>

theorem syncAudio_zero_drift_rounds_timestamps:
  "syncAudio 16777217 [(16777217, [1, 2])] 48000 2 = Inr [(16777217, []), (16777216, [1, 2])]"
proof -
  have "addFloat 16777217 0 = 16777216" by (simp add: addFloat_def float_eval)
  then show ?thesis
    by (simp add: syncAudio_silence drift_zero frames_zero narrow_int_examples)
qed


section \<open>init and updateOptions on an empty frame list\<close>

lemma calculateFrameRate_example: "calculateFrameRate [0, 1000000000] = 1"
  by (simp add: calculateFrameRate_def float_eval)

lemma addVideoFrames_example:
  "addVideoFrames [0, 1000000000] 0 1 n 0 [] = (1, [frameEntry 0 1000000000 n])"
proof -
  have "getFrameNumberFromTimestamp 0 0 1 = 0" "getFrameNumberFromTimestamp 1000000000 0 1 = 1"
    by (simp_all add: getFrameNumberFromTimestamp_def float_eval)
  moreover have "narrow_int 0 = 0" "narrow_int 1 = 1"
    by (simp_all add: narrow_int_def)
  ultimately show ?thesis
    by (simp add: duplicateFrames.simps framePts_def)
qed

lemma newVirtualFileSystem_example: "newVirtualFileSystem exampleCapture 0 1 = (exampleState, None)"
  by (simp add: newVirtualFileSystem_def init_def exampleCapture_def exampleState_def calculateFrameRate_example
      probeDngSize_def generateEntries_def encodeAudio_def addVideoFrames_example
      getScaleFromOptions_def eval_nat_numeral del: addVideoFrames.simps)

text \<open>
  C7: the code on a populated directory. The constructor, on a capture of two frames,
  leaves one image entry and a frame rate of 1. When the decoder then yields no frames,
  \<^verbatim>\<open>updateOptions\<close> returns without an exception, but \<^verbatim>\<open>init\<close> has returned at line 198,
  before \<^verbatim>\<open>mFiles.clear()\<close> and before \<open>mFps\<close> is assigned: the directory still holds the
  entry and the frame rate is still 1.
\<close>

theorem updateOptions_empty_frames_keeps_state:
  "newVirtualFileSystem exampleCapture 0 1 = (exampleState, None)
   \<and> updateOptions (exampleCapture\<lparr>getFrames := []\<rparr>) 0 1 exampleState = (exampleState, None)
   \<and> mFiles exampleState = [frameEntry 0 1000000000 4]
   \<and> mFps exampleState = 1"
  unfolding newVirtualFileSystem_example
  by (simp add: updateOptions_def init_def exampleCapture_def exampleState_def)

section \<open>generateFrame\<close>

text \<open>
  C3, as stated, fails for a read at the end of the image. The encoded image of the example
  has four bytes; a read of one byte at position 4 completes as \<open>result(0, -1)\<close>, not
  \<open>result(0, 0)\<close>: \<open>errorCode\<close> starts as \<open>-1\<close> and only the branch \<open>pos < dngData->size()\<close>
  clears it.
\<close>

theorem generateFrame_read_at_end_counterexample:
  "generateFrame exampleCapture exampleState (frameEntry 0 1000000000 4) 0 4 1 [9]
     = (0, [9], Result 0 (- 1))"
  by (simp add: generateFrame_def generateTask_def decodeTask_def copyDng_def exampleCapture_def
      frameEntry_def getScaleFromOptions_def exampleState_def)

text \<open>
  C3, amended. \<^verbatim>\<open>generateFrame\<close> always returns 0. A frame that is not found, and any other
  fault of the decoding or the encoding stage that is a \<^verbatim>\<open>std::runtime_error\<close>, completes
  the read as \<open>result(0, -1)\<close> and leaves the destination untouched. When both stages
  succeed, a read with \<open>pos\<close> inside the image copies \<open>min(len, size - pos)\<close> bytes and
  completes as \<open>result(that many, 0)\<close>, and a read with \<open>pos\<close> at or past the size of the
  image completes as \<open>result(0, -1)\<close>.
\<close>

theorem generateFrame_completion:
  "fst (generateFrame c this entry options pos len dst) = 0
   \<and> (\<forall>t. userData entry = Some t \<and> t \<notin> set (getFrames c) \<longrightarrow>
         snd (generateFrame c this entry options pos len dst) = (dst, Result 0 (- 1)))
   \<and> (\<forall>msg. decodeTask c entry = Inl (RuntimeError msg) \<longrightarrow>
         snd (generateFrame c this entry options pos len dst) = (dst, Result 0 (- 1)))
   \<and> (\<forall>frameIndex cfg meta data msg.
         decodeTask c entry = Inr (frameIndex, cfg, meta, data) \<and>
         generateDng c data meta cfg (mFps this) frameIndex options
           (getScaleFromOptions (RENDER_OPT_DRAFT c) options (mDraftScale this)) = Inl (RuntimeError msg) \<longrightarrow>
         snd (generateFrame c this entry options pos len dst) = (dst, Result 0 (- 1)))
   \<and> (\<forall>frameIndex cfg meta data bytes.
         decodeTask c entry = Inr (frameIndex, cfg, meta, data) \<and>
         generateDng c data meta cfg (mFps this) frameIndex options
           (getScaleFromOptions (RENDER_OPT_DRAFT c) options (mDraftScale this)) = Inr (Some bytes) \<longrightarrow>
         snd (generateFrame c this entry options pos len dst) =
           (if pos < length bytes
            then (take (min len (length bytes - pos)) (drop pos bytes) @ drop (min len (length bytes - pos)) dst,
                  Result (min len (length bytes - pos)) 0)
            else (dst, Result 0 (- 1))))"
proof (intro conjI allI impI)
  show "fst (generateFrame c this entry options pos len dst) = 0"
    by (simp add: generateFrame_def split: prod.split)
next
  fix t
  assume "userData entry = Some t \<and> t \<notin> set (getFrames c)"
  then have "decodeTask c entry = Inl (RuntimeError ''Failed to find frame'')"
    by (simp add: decodeTask_def)
  then show "snd (generateFrame c this entry options pos len dst) = (dst, Result 0 (- 1))"
    by (simp add: generateFrame_def generateTask_def)
next
  fix msg
  assume "decodeTask c entry = Inl (RuntimeError msg)"
  then show "snd (generateFrame c this entry options pos len dst) = (dst, Result 0 (- 1))"
    by (simp add: generateFrame_def generateTask_def)
next
  fix frameIndex cfg meta data msg
  assume "decodeTask c entry = Inr (frameIndex, cfg, meta, data) \<and>
         generateDng c data meta cfg (mFps this) frameIndex options
           (getScaleFromOptions (RENDER_OPT_DRAFT c) options (mDraftScale this)) = Inl (RuntimeError msg)"
  then show "snd (generateFrame c this entry options pos len dst) = (dst, Result 0 (- 1))"
    by (simp add: generateFrame_def generateTask_def)
next
  fix frameIndex cfg meta data bytes
  assume "decodeTask c entry = Inr (frameIndex, cfg, meta, data) \<and>
         generateDng c data meta cfg (mFps this) frameIndex options
           (getScaleFromOptions (RENDER_OPT_DRAFT c) options (mDraftScale this)) = Inr (Some bytes)"
  then show "snd (generateFrame c this entry options pos len dst) =
           (if pos < length bytes
            then (take (min len (length bytes - pos)) (drop pos bytes) @ drop (min len (length bytes - pos)) dst,
                  Result (min len (length bytes - pos)) 0)
            else (dst, Result 0 (- 1)))"
    by (simp add: generateFrame_def generateTask_def copyDng_def Let_def)
qed

lemma decodeTask_example:
  "decodeTask exampleCapture (frameEntry 0 1000000000 4) = Inr (1, (), (), [1, 2, 3, 4])"
  by (simp add: decodeTask_def exampleCapture_def frameEntry_def)

theorem generateFrame_completion_witness:
  "snd (generateFrame exampleCapture exampleState (frameEntry 0 5 4) 0 0 4 [9, 9, 9, 9])
     = ([9, 9, 9, 9], Result 0 (- 1))
   \<and> snd (generateFrame exampleCapture exampleState (frameEntry 0 1000000000 4) 0 1 8 [9, 9, 9, 9])
     = ([2, 3, 4, 9], Result 3 0)
   \<and> snd (generateFrame exampleCapture exampleState (frameEntry 0 1000000000 4) 0 7 8 [9, 9, 9, 9])
     = ([9, 9, 9, 9], Result 0 (- 1))"
proof (intro conjI)
  have "userData (frameEntry 0 5 4) = Some 5 \<and> 5 \<notin> set (getFrames exampleCapture)"
    by (simp add: frameEntry_def exampleCapture_def)
  with generateFrame_completion[of exampleCapture exampleState "frameEntry 0 5 4" 0 0 4 "[9, 9, 9, 9]"]
  show "snd (generateFrame exampleCapture exampleState (frameEntry 0 5 4) 0 0 4 [9, 9, 9, 9])
     = ([9, 9, 9, 9], Result 0 (- 1))"
    by blast
next
  have g: "generateDng exampleCapture [1, 2, 3, 4] () () (mFps exampleState) 1 0
          (getScaleFromOptions (RENDER_OPT_DRAFT exampleCapture) 0 (mDraftScale exampleState))
        = Inr (Some [1, 2, 3, 4])"
    by (simp add: exampleCapture_def)
  from generateFrame_completion
         [of exampleCapture exampleState "frameEntry 0 1000000000 4" 0 1 8 "[9, 9, 9, 9]"]
       decodeTask_example g
  have "snd (generateFrame exampleCapture exampleState (frameEntry 0 1000000000 4) 0 1 8 [9, 9, 9, 9]) =
        (if 1 < length [1, 2, 3, 4 :: 8 word]
         then (take (min 8 (length [1, 2, 3, 4 :: 8 word] - 1)) (drop 1 [1, 2, 3, 4])
                 @ drop (min 8 (length [1, 2, 3, 4 :: 8 word] - 1)) [9, 9, 9, 9],
               Result (min 8 (length [1, 2, 3, 4 :: 8 word] - 1)) 0)
         else ([9, 9, 9, 9], Result 0 (- 1)))"
    by blast
  then show "snd (generateFrame exampleCapture exampleState (frameEntry 0 1000000000 4) 0 1 8 [9, 9, 9, 9])
     = ([2, 3, 4, 9], Result 3 0)"
    by simp
next
  have g: "generateDng exampleCapture [1, 2, 3, 4] () () (mFps exampleState) 1 0
          (getScaleFromOptions (RENDER_OPT_DRAFT exampleCapture) 0 (mDraftScale exampleState))
        = Inr (Some [1, 2, 3, 4])"
    by (simp add: exampleCapture_def)
  from generateFrame_completion
         [of exampleCapture exampleState "frameEntry 0 1000000000 4" 0 7 8 "[9, 9, 9, 9]"]
       decodeTask_example g
  have "snd (generateFrame exampleCapture exampleState (frameEntry 0 1000000000 4) 0 7 8 [9, 9, 9, 9]) =
        (if 7 < length [1, 2, 3, 4 :: 8 word]
         then (take (min 8 (length [1, 2, 3, 4 :: 8 word] - 7)) (drop 7 [1, 2, 3, 4])
                 @ drop (min 8 (length [1, 2, 3, 4 :: 8 word] - 7)) [9, 9, 9, 9],
               Result (min 8 (length [1, 2, 3, 4 :: 8 word] - 7)) 0)
         else ([9, 9, 9, 9], Result 0 (- 1)))"
    by blast
  then show "snd (generateFrame exampleCapture exampleState (frameEntry 0 1000000000 4) 0 7 8 [9, 9, 9, 9])
     = ([9, 9, 9, 9], Result 0 (- 1))"
    by simp
qed

section \<open>parseFormatInfoChunk\<close>

lemma andThen_Inr: "andThen (Inr x) f = f x"
  by (simp add: andThen_def)

lemma andThen_Inl: "andThen (Inl e) f = Inl e"
  by (simp add: andThen_def)

lemma andThen_eq_Inr: "andThen m f = Inr y \<longleftrightarrow> (\<exists>x. m = Inr x \<and> f x = Inr y)"
  by (cases m) (simp_all add: andThen_def)

lemma checkFormatInfo_legal:
  assumes "checkFormatInfo cls formatTag channels rate bps ba bits cb extra = Inr chunk"
  shows "legalFormat formatTag extra"
  using assms
  by (cases extra) (auto simp: checkFormatInfo_def legalFormat_def split: if_splits)

lemma checkFormatInfo_accepts:
  assumes "cb = 0 \<or> cb = 22"
    and "make_FormatInfoChunk cls channels rate bits extra = Inr chunk"
    and "blockAlignment_of cls chunk = Inr ba" and "bytesPerSecond_of cls chunk = Inr bps"
    and "legalFormat formatTag extra"
  shows "checkFormatInfo cls formatTag channels rate bps ba bits cb extra = Inr chunk"
  using assms
  by (cases extra) (auto simp: checkFormatInfo_def legalFormat_def andThen_Inr)

lemma parseFormatInfoChunk_Inr:
  assumes "parseFormatInfoChunk cls stream ident chunkSize = Inr (chunk, rest)"
  shows "\<exists>formatTag channels rate bps ba bits cb extra.
           readFormatInfo stream chunkSize = Inr ((formatTag, channels, rate, bps, ba, bits, cb, extra), rest)
           \<and> checkFormatInfo cls formatTag channels rate bps ba bits cb extra = Inr chunk"
proof -
  from assms obtain fields s where r: "readFormatInfo stream chunkSize = Inr (fields, s)"
    and c: "(case fields of (formatTag, channels, rate, bps, ba, bits, cb, extra) \<Rightarrow>
               andThen (checkFormatInfo cls formatTag channels rate bps ba bits cb extra)
                 (\<lambda>formatInfoChunk. Inr (formatInfoChunk, s))) = Inr (chunk, rest)"
    by (auto simp: parseFormatInfoChunk_def andThen_eq_Inr split: if_splits)
  obtain formatTag channels rate bps ba bits cb extra
    where f: "fields = (formatTag, channels, rate, bps, ba, bits, cb, extra)"
    by (metis surj_pair)
  from c have "checkFormatInfo cls formatTag channels rate bps ba bits cb extra = Inr chunk" and "s = rest"
    unfolding f by (auto simp: andThen_eq_Inr)
  then show ?thesis using r f by blast
qed

lemma parseFormatInfoChunk_accepts:
  assumes "ident = fourCC ''fmt ''" and "chunkSize = 16 \<or> chunkSize = 18 \<or> chunkSize = 40"
    and "readFormatInfo stream chunkSize = Inr ((formatTag, channels, rate, bps, ba, bits, cb, extra), rest)"
    and "checkFormatInfo cls formatTag channels rate bps ba bits cb extra = Inr chunk"
  shows "parseFormatInfoChunk cls stream ident chunkSize = Inr (chunk, rest)"
  using assms by (auto simp: parseFormatInfoChunk_def andThen_Inr)

text \<open>
  C8. Take a fmt chunk that passes every other check of the parser: the identifier is
  \<^verbatim>\<open>fmt \<close>, the size is 16, 18 or 40, the fields can be read, \<open>cbSize\<close> is 0 or 22, the
  constructor of the class returns a chunk, and its block alignment and bytes per second
  are the ones read. The parser returns that chunk if and only if the format tag is 1, or
  it is \<open>0xFFFE\<close> and the extra data carries subformat 1. Whenever the parser returns a
  chunk at all, the tag it has read is such a tag. Whenever the fields it reads carry any
  other tag, or tag \<open>0xFFFE\<close> with no extra data or with a subformat other than 1, the
  parser throws.
\<close>

theorem parseFormatInfoChunk_legal:
  "(\<forall>formatTag channels rate bps ba bits cb extra rest chunk.
      ident = fourCC ''fmt '' \<and> (chunkSize = 16 \<or> chunkSize = 18 \<or> chunkSize = 40)
      \<and> readFormatInfo stream chunkSize = Inr ((formatTag, channels, rate, bps, ba, bits, cb, extra), rest)
      \<and> (cb = 0 \<or> cb = 22)
      \<and> make_FormatInfoChunk cls channels rate bits extra = Inr chunk
      \<and> blockAlignment_of cls chunk = Inr ba \<and> bytesPerSecond_of cls chunk = Inr bps \<longrightarrow>
      (parseFormatInfoChunk cls stream ident chunkSize = Inr (chunk, rest)
         \<longleftrightarrow> legalFormat formatTag extra))
   \<and> (\<forall>chunk rest. parseFormatInfoChunk cls stream ident chunkSize = Inr (chunk, rest) \<longrightarrow>
      (\<exists>formatTag channels rate bps ba bits cb extra.
         readFormatInfo stream chunkSize = Inr ((formatTag, channels, rate, bps, ba, bits, cb, extra), rest)
         \<and> legalFormat formatTag extra))
   \<and> (\<forall>formatTag channels rate bps ba bits cb extra rest.
         readFormatInfo stream chunkSize = Inr ((formatTag, channels, rate, bps, ba, bits, cb, extra), rest)
         \<and> \<not> legalFormat formatTag extra \<longrightarrow>
         (\<exists>e. parseFormatInfoChunk cls stream ident chunkSize = Inl e))"
proof -
  have accepted: "\<exists>formatTag channels rate bps ba bits cb extra.
         readFormatInfo stream chunkSize = Inr ((formatTag, channels, rate, bps, ba, bits, cb, extra), rest)
         \<and> legalFormat formatTag extra"
    if "parseFormatInfoChunk cls stream ident chunkSize = Inr (chunk, rest)" for chunk rest
  proof -
    from parseFormatInfoChunk_Inr[OF that]
    obtain formatTag channels rate bps ba bits cb extra where
      r: "readFormatInfo stream chunkSize = Inr ((formatTag, channels, rate, bps, ba, bits, cb, extra), rest)"
      and c: "checkFormatInfo cls formatTag channels rate bps ba bits cb extra = Inr chunk"
      by blast
    from c have "legalFormat formatTag extra" by (rule checkFormatInfo_legal)
    with r show ?thesis by blast
  qed
  have exactly: "parseFormatInfoChunk cls stream ident chunkSize = Inr (chunk, rest)
         \<longleftrightarrow> legalFormat formatTag extra"
    if h: "ident = fourCC ''fmt '' \<and> (chunkSize = 16 \<or> chunkSize = 18 \<or> chunkSize = 40)
      \<and> readFormatInfo stream chunkSize = Inr ((formatTag, channels, rate, bps, ba, bits, cb, extra), rest)
      \<and> (cb = 0 \<or> cb = 22)
      \<and> make_FormatInfoChunk cls channels rate bits extra = Inr chunk
      \<and> blockAlignment_of cls chunk = Inr ba \<and> bytesPerSecond_of cls chunk = Inr bps"
    for formatTag channels rate bps ba bits cb extra rest chunk
  proof
    assume "parseFormatInfoChunk cls stream ident chunkSize = Inr (chunk, rest)"
    from accepted[OF this] h show "legalFormat formatTag extra" by auto
  next
    assume l: "legalFormat formatTag extra"
    have "checkFormatInfo cls formatTag channels rate bps ba bits cb extra = Inr chunk"
      using h l by (intro checkFormatInfo_accepts) simp_all
    then show "parseFormatInfoChunk cls stream ident chunkSize = Inr (chunk, rest)"
      using h by (intro parseFormatInfoChunk_accepts[where formatTag = formatTag]) simp_all
  qed
  have rejected: "\<exists>e. parseFormatInfoChunk cls stream ident chunkSize = Inl e"
    if a: "readFormatInfo stream chunkSize = Inr ((formatTag, channels, rate, bps, ba, bits, cb, extra), rest)
         \<and> \<not> legalFormat formatTag extra"
    for formatTag channels rate bps ba bits cb extra rest
  proof (cases "parseFormatInfoChunk cls stream ident chunkSize")
    case (Inl e)
    then show ?thesis by blast
  next
    case (Inr r)
    then obtain chunk rest' where "parseFormatInfoChunk cls stream ident chunkSize = Inr (chunk, rest')"
      by (cases r) simp
    from accepted[OF this] a show ?thesis by auto
  qed
  from exactly accepted rejected show ?thesis
    by (intro conjI allI impI) blast+
qed

lemma readFormatInfo_pcm:
  "readFormatInfo pcmFormatBytes 16 = Inr ((1, 2, 48000, 192000, 4, 16, 0, None), [])"
  by (simp add: readFormatInfo_def pcmFormatBytes_def readValue_def andThen_Inr)

lemma readFormatInfo_extensible:
  "readFormatInfo extensibleFormatBytes 40 =
     Inr ((0xfffe, 2, 48000, 192000, 4, 16, 22,
           Some \<lparr>validBitsPerSample = 16, dwChannelMask = 3, subFormat = 1,
                 subFormatString = [0x00, 0x00, 0x00, 0x00, 0x10, 0x00, 0x80, 0x00, 0x00, 0xAA,
                                    0x00, 0x38, 0x9B, 0x71]\<rparr>), [])"
  by (simp add: readFormatInfo_def extensibleFormatBytes_def readValue_def andThen_Inr
      parseExtraData_def readChars_def)

lemma readFormatInfo_float:
  "readFormatInfo floatFormatBytes 16 = Inr ((3, 2, 48000, 192000, 4, 16, 0, None), [])"
  by (simp add: readFormatInfo_def floatFormatBytes_def readValue_def andThen_Inr)

lemma readFormatInfo_extensibleFloat:
  "readFormatInfo extensibleFloatFormatBytes 40 =
     Inr ((0xfffe, 2, 48000, 192000, 4, 16, 22,
           Some \<lparr>validBitsPerSample = 16, dwChannelMask = 3, subFormat = 3,
                 subFormatString = [0x00, 0x00, 0x00, 0x00, 0x10, 0x00, 0x80, 0x00, 0x00, 0xAA,
                                    0x00, 0x38, 0x9B, 0x71]\<rparr>), [])"
  by (simp add: readFormatInfo_def extensibleFloatFormatBytes_def readValue_def andThen_Inr
      parseExtraData_def readChars_def)

lemma readFormatInfo_extensibleBare:
  "readFormatInfo extensibleBareFormatBytes 16 = Inr ((0xfffe, 2, 48000, 192000, 4, 16, 0, None), [])"
  by (simp add: readFormatInfo_def extensibleBareFormatBytes_def readValue_def andThen_Inr)

lemma FormatInfoChunk_spec_example:
  "make_FormatInfoChunk FormatInfoChunk_spec 2 48000 16 extra =
     Inr \<lparr>fmt_channelCount = 2, fmt_sampleRate = 48000, fmt_bitsPerSample = 16, fmt_extraData = extra\<rparr>"
  "blockAlignment_of FormatInfoChunk_spec
     \<lparr>fmt_channelCount = 2, fmt_sampleRate = 48000, fmt_bitsPerSample = 16, fmt_extraData = extra\<rparr> = Inr 4"
  "bytesPerSecond_of FormatInfoChunk_spec
     \<lparr>fmt_channelCount = 2, fmt_sampleRate = 48000, fmt_bitsPerSample = 16, fmt_extraData = extra\<rparr> = Inr 192000"
  by (simp_all add: FormatInfoChunk_spec_def blockAlignment_def bytesPerSecond_def)

text \<open>
  With the class as the data model describes it, the plain PCM chunk and the extensible
  chunk with subformat 1 of the examples are accepted; the chunks with tag 3, with tag
  \<open>0xFFFE\<close> and subformat 3, and with tag \<open>0xFFFE\<close> and no extra data are rejected.
\<close>

theorem parseFormatInfoChunk_legal_witness:
  "parseFormatInfoChunk FormatInfoChunk_spec pcmFormatBytes (fourCC ''fmt '') 16 =
     Inr (\<lparr>fmt_channelCount = 2, fmt_sampleRate = 48000, fmt_bitsPerSample = 16, fmt_extraData = None\<rparr>, [])
   \<and> (\<exists>chunk. parseFormatInfoChunk FormatInfoChunk_spec extensibleFormatBytes (fourCC ''fmt '') 40 =
         Inr (chunk, []))
   \<and> (\<exists>e. parseFormatInfoChunk FormatInfoChunk_spec floatFormatBytes (fourCC ''fmt '') 16 = Inl e)
   \<and> (\<exists>e. parseFormatInfoChunk FormatInfoChunk_spec extensibleFloatFormatBytes (fourCC ''fmt '') 40 = Inl e)
   \<and> (\<exists>e. parseFormatInfoChunk FormatInfoChunk_spec extensibleBareFormatBytes (fourCC ''fmt '') 16 = Inl e)"
proof (intro conjI)
  let ?c = "\<lparr>fmt_channelCount = 2, fmt_sampleRate = 48000, fmt_bitsPerSample = 16, fmt_extraData = None\<rparr>"
  have l: "legalFormat 1 None" by (simp add: legalFormat_def)
  note t = parseFormatInfoChunk_legal[where ident = "fourCC ''fmt ''" and chunkSize = 16
      and stream = pcmFormatBytes and cls = FormatInfoChunk_spec]
  from t have "\<forall>formatTag channels rate bps ba bits cb extra rest chunk.
      fourCC ''fmt '' = fourCC ''fmt '' \<and> ((16::64 word) = 16 \<or> (16::64 word) = 18 \<or> (16::64 word) = 40)
      \<and> readFormatInfo pcmFormatBytes 16 = Inr ((formatTag, channels, rate, bps, ba, bits, cb, extra), rest)
      \<and> (cb = 0 \<or> cb = 22)
      \<and> make_FormatInfoChunk FormatInfoChunk_spec channels rate bits extra = Inr chunk
      \<and> blockAlignment_of FormatInfoChunk_spec chunk = Inr ba
      \<and> bytesPerSecond_of FormatInfoChunk_spec chunk = Inr bps \<longrightarrow>
      (parseFormatInfoChunk FormatInfoChunk_spec pcmFormatBytes (fourCC ''fmt '') 16 = Inr (chunk, rest)
         \<longleftrightarrow> legalFormat formatTag extra)"
    by (rule conjunct1)
  from this[rule_format, of 1 2 48000 192000 4 16 0 None "[]" ?c] l
  show "parseFormatInfoChunk FormatInfoChunk_spec pcmFormatBytes (fourCC ''fmt '') 16 = Inr (?c, [])"
    by (simp add: readFormatInfo_pcm FormatInfoChunk_spec_example)
next
  let ?e = "\<lparr>validBitsPerSample = 16, dwChannelMask = 3, subFormat = 1,
                 subFormatString = [0x00, 0x00, 0x00, 0x00, 0x10, 0x00, 0x80, 0x00, 0x00, 0xAA,
                                    0x00, 0x38, 0x9B, 0x71]\<rparr> :: ExtraData"
  let ?c = "\<lparr>fmt_channelCount = 2, fmt_sampleRate = 48000, fmt_bitsPerSample = 16, fmt_extraData = Some ?e\<rparr>"
  have l: "legalFormat 0xfffe (Some ?e)" by (simp add: legalFormat_def)
  note t = parseFormatInfoChunk_legal[where ident = "fourCC ''fmt ''" and chunkSize = 40
      and stream = extensibleFormatBytes and cls = FormatInfoChunk_spec]
  from t have "\<forall>formatTag channels rate bps ba bits cb extra rest chunk.
      fourCC ''fmt '' = fourCC ''fmt '' \<and> ((40::64 word) = 16 \<or> (40::64 word) = 18 \<or> (40::64 word) = 40)
      \<and> readFormatInfo extensibleFormatBytes 40 = Inr ((formatTag, channels, rate, bps, ba, bits, cb, extra), rest)
      \<and> (cb = 0 \<or> cb = 22)
      \<and> make_FormatInfoChunk FormatInfoChunk_spec channels rate bits extra = Inr chunk
      \<and> blockAlignment_of FormatInfoChunk_spec chunk = Inr ba
      \<and> bytesPerSecond_of FormatInfoChunk_spec chunk = Inr bps \<longrightarrow>
      (parseFormatInfoChunk FormatInfoChunk_spec extensibleFormatBytes (fourCC ''fmt '') 40 = Inr (chunk, rest)
         \<longleftrightarrow> legalFormat formatTag extra)"
    by (rule conjunct1)
  from this[rule_format, of "0xfffe" 2 48000 192000 4 16 22 "Some ?e" "[]" ?c] l
  have "parseFormatInfoChunk FormatInfoChunk_spec extensibleFormatBytes (fourCC ''fmt '') 40 = Inr (?c, [])"
    by (simp add: readFormatInfo_extensible FormatInfoChunk_spec_example)
  then show "\<exists>chunk. parseFormatInfoChunk FormatInfoChunk_spec extensibleFormatBytes (fourCC ''fmt '') 40 =
         Inr (chunk, [])"
    by blast
next
  have "\<not> legalFormat 3 None"
    by (simp add: legalFormat_def)
  with parseFormatInfoChunk_legal[where ident = "fourCC ''fmt ''" and chunkSize = 16
      and stream = floatFormatBytes and cls = FormatInfoChunk_spec]
       readFormatInfo_float
  show "\<exists>e. parseFormatInfoChunk FormatInfoChunk_spec floatFormatBytes (fourCC ''fmt '') 16 = Inl e"
    by blast
next
  have "\<not> legalFormat 0xfffe (Some \<lparr>validBitsPerSample = 16, dwChannelMask = 3, subFormat = 3,
                 subFormatString = [0x00, 0x00, 0x00, 0x00, 0x10, 0x00, 0x80, 0x00, 0x00, 0xAA,
                                    0x00, 0x38, 0x9B, 0x71]\<rparr>)"
    by (simp add: legalFormat_def)
  with parseFormatInfoChunk_legal[where ident = "fourCC ''fmt ''" and chunkSize = 40
      and stream = extensibleFloatFormatBytes and cls = FormatInfoChunk_spec]
       readFormatInfo_extensibleFloat
  show "\<exists>e. parseFormatInfoChunk FormatInfoChunk_spec extensibleFloatFormatBytes (fourCC ''fmt '') 40 = Inl e"
    by blast
next
  have "\<not> legalFormat 0xfffe None"
    by (simp add: legalFormat_def)
  with parseFormatInfoChunk_legal[where ident = "fourCC ''fmt ''" and chunkSize = 16
      and stream = extensibleBareFormatBytes and cls = FormatInfoChunk_spec]
       readFormatInfo_extensibleBare
  show "\<exists>e. parseFormatInfoChunk FormatInfoChunk_spec extensibleBareFormatBytes (fourCC ''fmt '') 16 = Inl e"
    by blast
qed


section \<open>Bw64Reader::read\<close>

lemma tell_example: "tell exampleReader = Inr 1"
  by (simp add: tell_def exampleReader_def udiv_def blockAlignment_def)

lemma numberOfFrames_example: "numberOfFrames exampleReader = Inr 10"
  by (simp add: numberOfFrames_def exampleReader_def udiv_def reader_blockAlignment_def
      safeCast_u16_def andThen_def)

lemma reader_blockAlignment_example: "reader_blockAlignment exampleReader = Inr 2"
  by (simp add: reader_blockAlignment_def safeCast_u16_def exampleReader_def)

text \<open>
  The number that \<^verbatim>\<open>read\<close> returns is the request after the test of lines 259-261, and that
  test is the minimum of the request and the frames left as long as the sum
  \<^verbatim>\<open>tell() + frames\<close> stays below \<open>2 ^ 64\<close>.
\<close>

lemma read_returns_clamped:
  assumes "read r outBuffer frames = Inr (k, out, r')"
  shows "\<exists>t n. tell r = Inr t \<and> numberOfFrames r = Inr n
           \<and> k = (if t + frames > n then n - t else frames)"
  using assms
  by (auto simp: read_def andThen_def Let_def split: sum.splits if_splits)

lemma clamp_without_wrap:
  fixes t n frames :: "64 word"
  assumes "unat t + unat frames < 2 ^ 64" and "t \<le> n"
  shows "(if t + frames > n then n - t else frames) = min frames (n - t)"
proof -
  have s: "unat (t + frames) = unat t + unat frames"
    using assms(1) unat_add_lem [of t frames] by simp
  have d: "unat (n - t) = unat n - unat t"
    using assms(2) by (simp add: unat_sub)
  have tn: "unat t \<le> unat n"
    using assms(2) by (simp add: word_le_nat_alt)
  show ?thesis
  proof (cases "t + frames > n")
    case True
    then have "unat n < unat t + unat frames"
      using s by (simp add: word_less_nat_alt)
    then have "unat (n - t) \<le> unat frames"
      using d tn by linarith
    then have "n - t \<le> frames"
      by (simp add: word_le_nat_alt)
    then show ?thesis
      using True by (simp add: min_def)
  next
    case False
    then have "unat t + unat frames \<le> unat n"
      using s by (simp add: word_less_nat_alt not_less)
    then have "unat frames \<le> unat (n - t)"
      using d tn by linarith
    then have "frames \<le> n - t"
      by (simp add: word_le_nat_alt)
    then show ?thesis
      using False by (simp add: min_def)
  qed
qed

text \<open>
  C9: the code at a frame count near \<open>2 ^ 64\<close>. The reader stands at frame 1 of 10, so nine
  frames are left. A request for 100 frames is clamped to 9. A request for \<open>2 ^ 64 - 1\<close>
  frames is not: \<open>tell() + frames\<close> wraps around to 0, the test \<open>tell() + frames >
  numberOfFrames()\<close> fails, \<open>frames * blockAlignment()\<close> is \<open>2 ^ 64 - 2\<close> bytes, and
  resizing the raw buffer to that size throws \<^verbatim>\<open>std::length_error\<close> instead of returning 9.
\<close>

theorem read_frame_count_wraps:
  "tell exampleReader = Inr 1
   \<and> numberOfFrames exampleReader = Inr 10
   \<and> (\<exists>out r. read exampleReader [] 100 = Inr (9, out, r))
   \<and> read exampleReader [] 18446744073709551615 = Inl (OtherException ''length_error'')"
proof (intro conjI)
  show "tell exampleReader = Inr 1" by (rule tell_example)
  show "numberOfFrames exampleReader = Inr 10" by (rule numberOfFrames_example)
  show "\<exists>out r. read exampleReader [] 100 = Inr (9, out, r)"
    apply (simp only: read_def tell_example numberOfFrames_example reader_blockAlignment_example
        andThen_Inr Let_def)
    apply (simp add: vector_max_size_def exampleReader_def decodePcmSamples_def andThen_Inr)
    done
  show "read exampleReader [] 18446744073709551615 = Inl (OtherException ''length_error'')"
    apply (simp only: read_def tell_example numberOfFrames_example reader_blockAlignment_example
        andThen_Inr Let_def)
    apply (simp add: vector_max_size_def)
    done
qed

section \<open>calculateFrameRate\<close>


lemma toDouble_zero: "toDouble 0 = 0"
  by (simp add: toDouble_def round_to_zero)
















section \<open>The frame entries\<close>

lemma duplicateFrames_eq:
  "duplicateFrames l p x n files = (max l p, files @ map (\<lambda>k. frameEntry k x n) [l..p - 1])"
proof (induction l p x n files rule: duplicateFrames.induct)
  case (1 lastPts pts x typicalDngSize files)
  show ?case
  proof (cases "lastPts < pts")
    case True
    then have "[lastPts..pts - 1] = lastPts # [lastPts + 1..pts - 1]"
      by (simp add: upto_rec1)
    then show ?thesis using True 1
      by (subst duplicateFrames.simps) simp
  next
    case False
    then show ?thesis
      by (subst duplicateFrames.simps) simp
  qed
qed

lemma foldl_max_ge: "l \<le> foldl max (l :: int) ps"
proof (induction ps arbitrary: l)
  case Nil
  then show ?case by simp
next
  case (Cons p ps)
  have "max l p \<le> foldl max (max l p) ps" by (rule Cons.IH)
  then show ?case by simp
qed

lemma addVideoFrames_eq:
  "addVideoFrames xs t0 fps n l files =
     (foldl max l (map (framePts t0 fps) xs),
      files @ map (\<lambda>k. frameEntry k (the (find (\<lambda>x. k < framePts t0 fps x) xs)) n)
                [l..foldl max l (map (framePts t0 fps) xs) - 1])"
proof (induction xs arbitrary: l files)
  case Nil
  then show ?case by simp
next
  case (Cons x xs)
  define p where "p = framePts t0 fps x"
  define l' where "l' = max l p"
  define M where "M = foldl max l' (map (framePts t0 fps) xs)"
  have lM: "l' \<le> M" unfolding M_def by (rule foldl_max_ge)
  have ll: "l \<le> l'" unfolding l'_def by simp
  have split: "[l..M - 1] = [l..p - 1] @ [l'..M - 1]"
  proof (cases "l < p")
    case True
    then have "l' = p" unfolding l'_def by simp
    then show ?thesis using True lM upto_split1[of l p "M - 1"] 
      by (cases "p \<le> M - 1") (auto simp: not_le)
  next
    case False
    then have "l' = l" unfolding l'_def by simp
    then show ?thesis using False by simp
  qed
  have first: "map (\<lambda>k. frameEntry k (the (find (\<lambda>x. k < framePts t0 fps x) (x # xs))) n) [l..p - 1]
             = map (\<lambda>k. frameEntry k x n) [l..p - 1]"
    by (rule map_cong) (simp_all add: p_def)
  have second: "map (\<lambda>k. frameEntry k (the (find (\<lambda>x. k < framePts t0 fps x) (x # xs))) n) [l'..M - 1]
             = map (\<lambda>k. frameEntry k (the (find (\<lambda>x. k < framePts t0 fps x) xs)) n) [l'..M - 1]"
    by (rule map_cong) (auto simp: p_def l'_def)
  have "addVideoFrames (x # xs) t0 fps n l files =
          addVideoFrames xs t0 fps n l' (files @ map (\<lambda>k. frameEntry k x n) [l..p - 1])"
    by (simp add: duplicateFrames_eq p_def l'_def Let_def)
  also have "\<dots> = (M, (files @ map (\<lambda>k. frameEntry k x n) [l..p - 1]) @
                     map (\<lambda>k. frameEntry k (the (find (\<lambda>x. k < framePts t0 fps x) xs)) n) [l'..M - 1])"
    unfolding M_def by (rule Cons.IH)
  also have "\<dots> = (M, files @ map (\<lambda>k. frameEntry k (the (find (\<lambda>x. k < framePts t0 fps x) (x # xs))) n)
                              [l..M - 1])"
    by (simp only: split map_append first second append_assoc)
  finally show ?case
    by (simp add: M_def l'_def p_def)
qed

lemma digitValue_digit:
  assumes "d < 10"
  shows "digitValue (''0123456789'' ! d) = d"
proof -
  from assms have "d = 0 \<or> d = 1 \<or> d = 2 \<or> d = 3 \<or> d = 4 \<or> d = 5 \<or> d = 6 \<or> d = 7 \<or> d = 8 \<or> d = 9"
    by presburger
  then show ?thesis
    by (elim disjE) (simp_all add: digitValue_def)
qed

lemma readDecimal_snoc: "readDecimal (s @ [c]) = 10 * readDecimal s + digitValue c"
  by (simp add: readDecimal_def)

lemma readDecimal_decimal: "readDecimal (decimal n) = n"
proof (induction n rule: decimal.induct)
  case (1 n)
  show ?case
  proof (cases "n < 10")
    case True
    then have "decimal n = [''0123456789'' ! n]" by (subst decimal.simps) simp
    then show ?thesis using True by (simp add: readDecimal_def digitValue_digit)
  next
    case False
    then have "decimal n = decimal (n div 10) @ [''0123456789'' ! (n mod 10)]"
      by (subst decimal.simps) simp
    then have "readDecimal (decimal n) = 10 * readDecimal (decimal (n div 10)) + digitValue (''0123456789'' ! (n mod 10))"
      by (simp only: readDecimal_snoc)
    also have "\<dots> = 10 * (n div 10) + n mod 10"
      using 1[OF False] by (simp add: digitValue_digit)
    finally show ?thesis by simp
  qed
qed

lemma readDecimal_zeros: "readDecimal (replicate k CHR ''0'' @ s) = readDecimal s"
proof (induction k)
  case 0
  then show ?case by simp
next
  case (Suc k)
  have "digitValue CHR ''0'' = 0" by (simp add: digitValue_def)
  then have "readDecimal (CHR ''0'' # t) = readDecimal t" for t
    by (simp add: readDecimal_def)
  then show ?case using Suc by simp
qed

lemma frameNumberOf_name:
  assumes "0 \<le> k"
  shows "frameNumberOf (constructFrameFilename ''frame-'' k 6 ''dng'') = nat k"
proof -
  let ?p = "setw_fill 6 CHR ''0'' (show_int k)"
  have name: "constructFrameFilename ''frame-'' k 6 ''dng'' = ''frame-'' @ ?p @ ''.dng''"
    by (simp add: constructFrameFilename_def)
  have "take (length (''frame-'' @ ?p @ ''.dng'') - 10) (drop 6 (''frame-'' @ ?p @ ''.dng'')) = ?p"
    by simp
  then have "frameNumberOf (constructFrameFilename ''frame-'' k 6 ''dng'') = readDecimal ?p"
    unfolding frameNumberOf_def name by (rule arg_cong)
  also have "\<dots> = readDecimal (decimal (nat k))"
    using assms by (simp add: setw_fill_def show_int_def readDecimal_zeros)
  finally show ?thesis by (simp add: readDecimal_decimal)
qed

lemma constructFrameFilename_inj:
  assumes "0 \<le> i" "0 \<le> j"
    and "constructFrameFilename ''frame-'' i 6 ''dng'' = constructFrameFilename ''frame-'' j 6 ''dng''"
  shows "i = j"
proof -
  have "nat i = nat j"
    using frameNumberOf_name[OF assms(1)] frameNumberOf_name[OF assms(2)] assms(3) by simp
  then show ?thesis using assms(1,2) by simp
qed

lemma toDouble_mono: "x \<le> y \<Longrightarrow> toDouble x \<le> toDouble y"
  unfolding toDouble_def by (rule round_to_mono) simp_all

lemma std_round_nonneg: "0 \<le> x \<Longrightarrow> 0 \<le> std_round x"
  by (simp add: std_round_def)

lemma getFrameNumber_lower: "- 1 \<le> getFrameNumberFromTimestamp x t0 fps"
proof (cases "fps \<le> 0 \<or> x - t0 < 0")
  case True
  then show ?thesis by (auto simp: getFrameNumberFromTimestamp_def)
next
  case False
  then have npf: "0 < toDouble (1000000000 / fps)" by (simp add: toDouble_sign)
  have "0 \<le> toDouble (real_of_int (x - t0))"
    using False toDouble_mono[of 0 "real_of_int (x - t0)"] by (simp add: toDouble_zero)
  then have "0 \<le> toDouble (real_of_int (x - t0)) / toDouble (1000000000 / fps)"
    using npf by simp
  then have "0 \<le> toDouble (toDouble (real_of_int (x - t0)) / toDouble (1000000000 / fps))"
    using toDouble_mono[of 0] by (simp add: toDouble_zero)
  then have "0 \<le> std_round (toDouble (toDouble (real_of_int (x - t0)) / toDouble (1000000000 / fps)))"
    by (rule std_round_nonneg)
  then show ?thesis using False by (simp add: getFrameNumberFromTimestamp_def Let_def)
qed

lemma getFrameNumber_mono:
  assumes "a \<le> b"
  shows "getFrameNumberFromTimestamp a t0 fps \<le> getFrameNumberFromTimestamp b t0 fps"
proof (cases "fps \<le> 0 \<or> a - t0 < 0")
  case True
  then have "getFrameNumberFromTimestamp a t0 fps = - 1"
    by (auto simp: getFrameNumberFromTimestamp_def)
  then show ?thesis using getFrameNumber_lower[of b t0 fps] by simp
next
  case False
  then have npf: "0 < toDouble (1000000000 / fps)" by (simp add: toDouble_sign)
  have b: "\<not> b - t0 < 0" using False assms by simp
  have "toDouble (real_of_int (a - t0)) \<le> toDouble (real_of_int (b - t0))"
    using assms by (intro toDouble_mono) simp
  then have "toDouble (real_of_int (a - t0)) / toDouble (1000000000 / fps)
           \<le> toDouble (real_of_int (b - t0)) / toDouble (1000000000 / fps)"
    using npf by (simp add: divide_right_mono)
  then have "std_round (toDouble (toDouble (real_of_int (a - t0)) / toDouble (1000000000 / fps)))
           \<le> std_round (toDouble (toDouble (real_of_int (b - t0)) / toDouble (1000000000 / fps)))"
    by (intro std_round_mono toDouble_mono)
  then show ?thesis using False b by (simp add: getFrameNumberFromTimestamp_def Let_def)
qed

lemma foldl_max_last:
  assumes "xs \<noteq> []" and "\<forall>x \<in> set xs. f x \<le> f (last xs)"
  shows "foldl max (l :: int) (map f xs) = max l (f (last xs))"
  using assms
proof (induction xs arbitrary: l)
  case Nil
  then show ?case by simp
next
  case (Cons x xs)
  show ?case
  proof (cases "xs = []")
    case True
    then show ?thesis by simp
  next
    case False
    then have "foldl max (max l (f x)) (map f xs) = max (max l (f x)) (f (last xs))"
      using Cons.prems by (intro Cons.IH) simp_all
    moreover have "f x \<le> f (last xs)" using Cons.prems False by simp
    ultimately show ?thesis using False by simp
  qed
qed

lemma sorted_le_last:
  assumes "sorted xs" and "x \<in> set xs"
  shows "x \<le> last (xs :: int list)"
  using assms
proof (induction xs)
  case Nil
  then show ?case by simp
next
  case (Cons a xs)
  then show ?case by (cases "xs = []") auto
qed

lemma framePts_sorted:
  assumes "sorted frames" and "frames \<noteq> []"
    and "getFrameNumberFromTimestamp (last frames) t0 fps < 2 ^ 31"
  shows "foldl max 0 (map (framePts t0 fps) frames) = max 0 (framePts t0 fps (last frames))"
proof -
  have "framePts t0 fps x \<le> framePts t0 fps (last frames)" if "x \<in> set frames" for x
  proof -
    have "x \<le> last frames" using assms(1) that by (rule sorted_le_last)
    then have le: "getFrameNumberFromTimestamp x t0 fps \<le> getFrameNumberFromTimestamp (last frames) t0 fps"
      by (rule getFrameNumber_mono)
    have "narrow_int (getFrameNumberFromTimestamp x t0 fps) = getFrameNumberFromTimestamp x t0 fps"
      using getFrameNumber_lower[of x t0 fps] le assms(3) by (intro narrow_int_id) simp_all
    moreover have "narrow_int (getFrameNumberFromTimestamp (last frames) t0 fps)
                   = getFrameNumberFromTimestamp (last frames) t0 fps"
      using getFrameNumber_lower[of "last frames" t0 fps] assms(3) by (intro narrow_int_id) simp_all
    ultimately show ?thesis using le by (simp add: framePts_def)
  qed
  then show ?thesis using assms(2) by (intro foldl_max_last) simp_all
qed

lemma addVideoFrames_single: "addVideoFrames [x] x fps n 0 files = (0, files)"
proof -
  have "getFrameNumberFromTimestamp x x fps = 0 \<or> getFrameNumberFromTimestamp x x fps = - 1"
    by (simp add: getFrameNumberFromTimestamp_def toDouble_zero std_round_def)
  then have "framePts x fps x \<le> 0"
    by (auto simp: framePts_def narrow_int_def)
  then show ?thesis
    by (simp add: duplicateFrames_eq)
qed

lemma addVideoFrames_gapFill:
  "addVideoFrames frames frames0 fps n 0 files =
     (nextPts frames0 fps frames, files @ gapFillEntries frames frames0 fps n)"
  by (simp add: addVideoFrames_eq nextPts_def gapFillEntries_def)

lemma gapFillEntries_names:
  assumes "e \<in> set (gapFillEntries frames frames0 fps n)"
  shows "\<exists>k. 0 \<le> k \<and> k < nextPts frames0 fps frames
             \<and> name_Entry e = constructFrameFilename ''frame-'' k 6 ''dng''"
  using assms by (auto simp: gapFillEntries_def frameEntry_def)

lemma init_files:
  assumes "init c options this = (this', None)" and "getFrames c \<noteq> []"
  shows "mFps this' = calculateFrameRate (sort (getFrames c))
         \<and> (\<exists>prefix. set prefix \<subseteq> {desktopIni, audioEntry (length (mAudioFile this'))}
              \<and> mFiles this' = prefix @ gapFillEntries (sort (getFrames c)) (hd (sort (getFrames c)))
                                         (mFps this') (mTypicalDngSize this'))"
proof -
  have ne: "sort (getFrames c) \<noteq> []" using assms(2) by (metis length_0_conv length_sort)
  from assms(1) ne obtain n where
    g: "generateEntries c (sort (getFrames c))
          (this\<lparr>mFiles := [], mFps := calculateFrameRate (sort (getFrames c)), mTypicalDngSize := n\<rparr>)
        = (this', None)"
    by (auto simp: init_def Let_def split: sum.splits)
  define base where "base = this\<lparr>mFiles := [], mFps := calculateFrameRate (sort (getFrames c)), mTypicalDngSize := n\<rparr>"
  define this1 where "this1 = (if win32 c then base\<lparr>mFiles := mFiles base @ [desktopIni]\<rparr> else base)"
  from g obtain audioFile where a: "encodeAudio c (sort (getFrames c)) this1 = Inr audioFile"
    unfolding generateEntries_def base_def[symmetric] Let_def this1_def[symmetric]
    by (auto split: sum.splits)
  define this3 where "this3 = (if audioFile \<noteq> []
        then this1\<lparr>mAudioFile := audioFile, mFiles := mFiles this1 @ [audioEntry (length audioFile)]\<rparr>
        else this1\<lparr>mAudioFile := audioFile\<rparr>)"
  have r: "this' = this3\<lparr>mFiles := snd (addVideoFrames (sort (getFrames c)) (hd (sort (getFrames c)))
                                     (mFps this3) (mTypicalDngSize this3) 0 (mFiles this3))\<rparr>"
    using g a unfolding generateEntries_def base_def[symmetric] Let_def this1_def[symmetric] this3_def
    by (auto split: if_splits)
  have fps: "mFps this3 = calculateFrameRate (sort (getFrames c))"
    and sz: "mTypicalDngSize this3 = mTypicalDngSize this'"
    and au: "mAudioFile this3 = mAudioFile this'" "mAudioFile this3 = audioFile"
    unfolding r by (simp_all add: this3_def this1_def base_def)
  have pre: "set (mFiles this3) \<subseteq> {desktopIni, audioEntry (length audioFile)}"
    by (auto simp: this3_def this1_def base_def)
  have "mFiles this' = mFiles this3 @ gapFillEntries (sort (getFrames c)) (hd (sort (getFrames c)))
                                         (mFps this') (mTypicalDngSize this')"
    unfolding r by (simp add: addVideoFrames_gapFill)
  moreover have "mFps this' = calculateFrameRate (sort (getFrames c))"
    unfolding r using fps by simp
  ultimately show ?thesis using pre au by auto
qed

text \<open>
  C1. Started with the cursor at 0, the loop over the frames appends exactly the entries of
  the gap-filling rule: slot \<open>k\<close> is named \<open>frame-k\<close> padded to six digits with extension
  \<open>dng\<close>, has the typical size, and carries the timestamp of the source frame that was
  current when the slot was emitted; the cursor ends at the largest \<open>pts\<close>. For sorted
  frames whose frame numbers fit an \<^verbatim>\<open>int\<close>, the largest \<open>pts\<close> is that of the final frame, so
  only the slots below it are emitted and no entry carries the name of the slot of the
  final frame. A single frame yields no entry, whatever the frame rate. After a successful
  \<^verbatim>\<open>init\<close> the directory is the hidden entry and the audio entry, where present, followed
  by these entries.
\<close>

theorem addVideoFrames_gap_fill:
  "duplicateFrames lastPts pts x typicalDngSize files =
     (max lastPts pts, files @ map (\<lambda>k. frameEntry k x typicalDngSize) [lastPts..pts - 1])
   \<and> frameEntry k x typicalDngSize =
       \<lparr>type_Entry = FILE_ENTRY, size_Entry = typicalDngSize,
        name_Entry = ''frame-'' @ replicate (6 - length (show_int k)) CHR ''0'' @ show_int k @ ''.dng'',
        userData = Some x\<rparr>
   \<and> addVideoFrames frames frames0 fps typicalDngSize 0 files =
     (nextPts frames0 fps frames, files @ gapFillEntries frames frames0 fps typicalDngSize)
   \<and> (sorted frames \<and> frames \<noteq> [] \<and> getFrameNumberFromTimestamp (last frames) frames0 fps < 2 ^ 31 \<longrightarrow>
        nextPts frames0 fps frames = max 0 (framePts frames0 fps (last frames))
        \<and> (\<forall>e \<in> set (gapFillEntries frames frames0 fps typicalDngSize).
             name_Entry e \<noteq> constructFrameFilename ''frame-'' (framePts frames0 fps (last frames)) 6 ''dng''))
   \<and> addVideoFrames [x] x fps typicalDngSize 0 files = (0, files)
   \<and> (\<forall>this'. init c options this = (this', None) \<and> getFrames c \<noteq> [] \<longrightarrow>
         (\<exists>prefix. set prefix \<subseteq> {desktopIni, audioEntry (length (mAudioFile this'))}
              \<and> mFiles this' = prefix @ gapFillEntries (sort (getFrames c)) (hd (sort (getFrames c)))
                                         (calculateFrameRate (sort (getFrames c))) (mTypicalDngSize this')))"
proof -
  have loop: "duplicateFrames lastPts pts x typicalDngSize files =
     (max lastPts pts, files @ map (\<lambda>k. frameEntry k x typicalDngSize) [lastPts..pts - 1])"
    by (rule duplicateFrames_eq)
  have entry: "frameEntry k x typicalDngSize =
       \<lparr>type_Entry = FILE_ENTRY, size_Entry = typicalDngSize,
        name_Entry = ''frame-'' @ replicate (6 - length (show_int k)) CHR ''0'' @ show_int k @ ''.dng'',
        userData = Some x\<rparr>"
    by (simp add: frameEntry_def constructFrameFilename_def setw_fill_def)
  have all: "addVideoFrames frames frames0 fps typicalDngSize 0 files =
     (nextPts frames0 fps frames, files @ gapFillEntries frames frames0 fps typicalDngSize)"
    by (rule addVideoFrames_gapFill)
  have single: "addVideoFrames [x] x fps typicalDngSize 0 files = (0, files)"
    by (rule addVideoFrames_single)
  have final: "nextPts frames0 fps frames = max 0 (framePts frames0 fps (last frames))
        \<and> (\<forall>e \<in> set (gapFillEntries frames frames0 fps typicalDngSize).
             name_Entry e \<noteq> constructFrameFilename ''frame-'' (framePts frames0 fps (last frames)) 6 ''dng'')"
    if a: "sorted frames \<and> frames \<noteq> [] \<and> getFrameNumberFromTimestamp (last frames) frames0 fps < 2 ^ 31"
  proof (rule conjI)
    show m: "nextPts frames0 fps frames = max 0 (framePts frames0 fps (last frames))"
      unfolding nextPts_def using a by (intro framePts_sorted) simp_all
    show "\<forall>e \<in> set (gapFillEntries frames frames0 fps typicalDngSize).
             name_Entry e \<noteq> constructFrameFilename ''frame-'' (framePts frames0 fps (last frames)) 6 ''dng''"
    proof (rule ballI)
      fix e
      assume "e \<in> set (gapFillEntries frames frames0 fps typicalDngSize)"
      then obtain j where j: "0 \<le> j" "j < nextPts frames0 fps frames"
        "name_Entry e = constructFrameFilename ''frame-'' j 6 ''dng''"
        using gapFillEntries_names by blast
      show "name_Entry e \<noteq> constructFrameFilename ''frame-'' (framePts frames0 fps (last frames)) 6 ''dng''"
      proof
        assume eq: "name_Entry e = constructFrameFilename ''frame-'' (framePts frames0 fps (last frames)) 6 ''dng''"
        have lt: "j < max 0 (framePts frames0 fps (last frames))" using j(2) unfolding m .
        then have nn: "0 \<le> framePts frames0 fps (last frames)" using j(1) by linarith
        with j(1) have "j = framePts frames0 fps (last frames)"
          using eq j(3) by (intro constructFrameFilename_inj) simp_all
        then show False using lt nn by linarith
      qed
    qed
  qed
  have dir: "\<exists>prefix. set prefix \<subseteq> {desktopIni, audioEntry (length (mAudioFile this'))}
              \<and> mFiles this' = prefix @ gapFillEntries (sort (getFrames c)) (hd (sort (getFrames c)))
                                         (calculateFrameRate (sort (getFrames c))) (mTypicalDngSize this')"
    if "init c options this = (this', None) \<and> getFrames c \<noteq> []" for this'
    using init_files[of c options this this'] that by auto
  show ?thesis
    using loop entry all single final dir by (intro conjI impI allI) blast+
qed

lemma framePts_examples:
  "framePts 0 1 0 = 0" "framePts 0 1 1000000000 = 1" "framePts 0 1 4000000000 = 4"
  by (simp_all add: framePts_def getFrameNumberFromTimestamp_def narrow_int_def float_eval)

lemma upto_0_3: "[0..3::int] = [0, 1, 2, 3]"
  by (simp add: upto_rec1)

theorem addVideoFrames_gap_fill_witness:
  "addVideoFrames [0, 1000000000, 4000000000] 0 1 4 0 [] =
     (4, [frameEntry 0 1000000000 4, frameEntry 1 4000000000 4,
          frameEntry 2 4000000000 4, frameEntry 3 4000000000 4])
   \<and> name_Entry (frameEntry 3 4000000000 4) = ''frame-000003.dng''
   \<and> nextPts 0 1 [0, 1000000000, 4000000000] = max 0 (framePts 0 1 4000000000)
   \<and> constructFrameFilename ''frame-'' (framePts 0 1 4000000000) 6 ''dng''
        \<notin> name_Entry ` set (gapFillEntries [0, 1000000000, 4000000000] 0 1 4)"
proof -
  note t = addVideoFrames_gap_fill[of 0 0 4000000000 4 "[]" 3 "[0, 1000000000, 4000000000]" 0 1
             exampleCapture 0 exampleState]
  have h: "sorted [0, 1000000000, 4000000000 :: int] \<and> [0, 1000000000, 4000000000 :: int] \<noteq> []
           \<and> getFrameNumberFromTimestamp (last [0, 1000000000, 4000000000]) 0 1 < 2 ^ 31"
    by (simp add: getFrameNumberFromTimestamp_def float_eval)
  have n: "nextPts 0 1 [0, 1000000000, 4000000000] = 4"
    by (simp add: nextPts_def framePts_examples)
  have g: "gapFillEntries [0, 1000000000, 4000000000] 0 1 4 =
       [frameEntry 0 1000000000 4, frameEntry 1 4000000000 4,
        frameEntry 2 4000000000 4, frameEntry 3 4000000000 4]"
    by (simp add: gapFillEntries_def n upto_0_3 framePts_examples)
  from t have "addVideoFrames [0, 1000000000, 4000000000] 0 1 4 0 [] =
     (nextPts 0 1 [0, 1000000000, 4000000000], [] @ gapFillEntries [0, 1000000000, 4000000000] 0 1 4)"
    by (elim conjE)
  then have 1: "addVideoFrames [0, 1000000000, 4000000000] 0 1 4 0 [] =
     (4, [frameEntry 0 1000000000 4, frameEntry 1 4000000000 4,
          frameEntry 2 4000000000 4, frameEntry 3 4000000000 4])"
    unfolding n g by simp
  from t have "frameEntry 3 4000000000 4 =
       \<lparr>type_Entry = FILE_ENTRY, size_Entry = 4,
        name_Entry = ''frame-'' @ replicate (6 - length (show_int 3)) CHR ''0'' @ show_int 3 @ ''.dng'',
        userData = Some 4000000000\<rparr>"
    by (elim conjE)
  then have 3: "name_Entry (frameEntry 3 4000000000 4) = ''frame-000003.dng''"
    by (simp add: show_int_def decimal.simps eval_nat_numeral)
  from t h have 2: "nextPts 0 1 [0, 1000000000, 4000000000] = max 0 (framePts 0 1 (last [0, 1000000000, 4000000000]))
        \<and> (\<forall>e \<in> set (gapFillEntries [0, 1000000000, 4000000000] 0 1 4).
             name_Entry e \<noteq> constructFrameFilename ''frame-'' (framePts 0 1 (last [0, 1000000000, 4000000000])) 6 ''dng'')"
    by blast
  have l: "last [0, 1000000000, 4000000000 :: int] = 4000000000" by simp
  from 1 2 3 show ?thesis unfolding l by auto
qed

end
